theory Spec2Isabelle
  imports Complex_Main "HOL-Library.Multiset"
begin

section \<open>JavaScript numbers\<close>

text \<open>
  A JavaScript number is an IEEE 754 double. It is modelled by its special values and, for
  the finite ones, by the real number it denotes: \<open>NaN\<close>, the two infinities and
  \<open>Fin r\<close>. The result of an addition, a subtraction, a multiplication or a division of
  finite numbers is the exact result rounded to the nearest double (\<open>round64\<close> below), so
  that \<open>0.1 + 0.2\<close> is \<open>0.30000000000000004\<close> here as it is in the code. Every rule for
  \<open>NaN\<close> and the infinities is written out, so that a division by zero and a failed
  \<open>parseFloat\<close> are results of the model as they are of the code. The sign of zero is
  not modelled.
\<close>

datatype jsnum = NaN | NegInf | Fin real | PosInf

fun isNaN :: "jsnum \<Rightarrow> bool" where
  "isNaN NaN = True"
| "isNaN _ = False"

fun jneg :: "jsnum \<Rightarrow> jsnum" where
  "jneg NaN = NaN"
| "jneg NegInf = PosInf"
| "jneg (Fin a) = Fin (- a)"
| "jneg PosInf = NegInf"

subsection \<open>Rounding to the nearest double\<close>

text \<open>The integer nearest to \<open>y\<close>, the even one of the two when \<open>y\<close> lies half way.\<close>

definition rne :: "real \<Rightarrow> int" where
  "rne y = (let f = \<lfloor>y\<rfloor>; d = y - of_int f
            in if d < 1 / 2 then f else if 1 / 2 < d then f + 1
               else if even f then f else f + 1)"

text \<open>
  The binary exponent of a positive real \<open>x\<close>, the \<open>e\<close> with
  \<open>2 ^ e \<le> x < 2 ^ (e + 1)\<close>: by halving from 1 on, by doubling below 1.
\<close>

function expo_up :: "real \<Rightarrow> int" where
  "expo_up x = (if x < 2 then 0 else expo_up (x / 2) + 1)"
  by pat_completeness auto
termination
proof (relation "measure (\<lambda>x. nat \<lfloor>x\<rfloor>)")
  show "wf (measure (\<lambda>x::real. nat \<lfloor>x\<rfloor>))" by simp
next
  fix x :: real
  assume "\<not> x < 2"
  then have x: "2 \<le> x" by simp
  have "x / 2 \<le> x - 1" using x by simp
  then have "\<lfloor>x / 2\<rfloor> \<le> \<lfloor>x - 1\<rfloor>" by (rule floor_mono)
  also have "\<dots> = \<lfloor>x\<rfloor> - 1" by simp
  finally have "\<lfloor>x / 2\<rfloor> < \<lfloor>x\<rfloor>" by simp
  moreover have "0 < \<lfloor>x\<rfloor>" using x by simp
  ultimately show "(x / 2, x) \<in> measure (\<lambda>x. nat \<lfloor>x\<rfloor>)" by simp
qed

function expo_dn :: "real \<Rightarrow> int" where
  "expo_dn x = (if 1 \<le> x \<or> x \<le> 0 then 0 else expo_dn (2 * x) - 1)"
  by pat_completeness auto
termination
proof (relation "measure (\<lambda>x. nat \<lceil>1 / x\<rceil>)")
  show "wf (measure (\<lambda>x::real. nat \<lceil>1 / x\<rceil>))" by simp
next
  fix x :: real
  assume "\<not> (1 \<le> x \<or> x \<le> 0)"
  then have x: "0 < x" "x < 1" by simp_all
  let ?y = "1 / x"
  have y: "1 < ?y" using x by simp
  then have c2: "2 \<le> \<lceil>?y\<rceil>" by linarith
  have "\<lceil>?y / 2\<rceil> < \<lceil>?y\<rceil>"
  proof (cases "?y \<le> 2")
    case True
    then have "?y / 2 \<le> 1" by simp
    then have "\<lceil>?y / 2\<rceil> \<le> 1" by (simp add: ceiling_le_iff)
    then show ?thesis using c2 by linarith
  next
    case False
    then have "?y / 2 \<le> ?y - 1" by simp
    then have "\<lceil>?y / 2\<rceil> \<le> \<lceil>?y - 1\<rceil>" by (rule ceiling_mono)
    then show ?thesis by simp
  qed
  moreover have "1 / (2 * x) = ?y / 2" by simp
  ultimately have "\<lceil>1 / (2 * x)\<rceil> < \<lceil>1 / x\<rceil>" by (simp only:)
  then have "nat \<lceil>1 / (2 * x)\<rceil> < nat \<lceil>1 / x\<rceil>" using c2 by linarith
  then show "(2 * x, x) \<in> measure (\<lambda>x. nat \<lceil>1 / x\<rceil>)" by (simp only: in_measure)
qed

declare expo_up.simps [simp del] expo_dn.simps [simp del]

definition expo :: "real \<Rightarrow> int" where
  "expo x = (if 1 \<le> x then expo_up x else expo_dn x)"

text \<open>
  A finite double is \<open>m * 2 ^ q\<close> with \<open>\<bar>m\<bar> < 2 ^ 53\<close> and \<open>- 1074 \<le> q\<close>, below
  \<open>2 ^ 1024\<close> in absolute value. The doubles next to \<open>x\<close> are \<open>2 ^ quantum x\<close> apart: the
  significand has 53 bits, and below \<open>2 ^ (- 1022)\<close> the spacing stays \<open>2 ^ (- 1074)\<close>.
\<close>

definition emin :: int where
  "emin = - 1074"

definition emax :: int where
  "emax = 1024"

definition quantum :: "real \<Rightarrow> int" where
  "quantum x = max (expo x - 52) emin"

text \<open>
  Round to nearest, ties to even; a result that reaches \<open>2 ^ 1024\<close> is the infinity. \<open>rp\<close>
  is the rounded value before that test.
\<close>

definition rp :: "real \<Rightarrow> real" where
  "rp x = of_int (rne (x / 2 powi quantum x)) * 2 powi quantum x"

definition round_pos :: "real \<Rightarrow> jsnum" where
  "round_pos x =
     (let p = quantum x; r = of_int (rne (x / 2 powi p)) * 2 powi p
      in if 2 powi emax \<le> r then PosInf else Fin r)"

definition round64 :: "real \<Rightarrow> jsnum" where
  "round64 x = (if x = 0 then Fin 0 else if 0 < x then round_pos x
                else jneg (round_pos (- x)))"

text \<open>The reals that are doubles: the ones rounding leaves as they are.\<close>

definition double :: "real \<Rightarrow> bool" where
  "double x = (round64 x = Fin x)"

definition jdouble :: "jsnum \<Rightarrow> bool" where
  "jdouble x = (case x of Fin r \<Rightarrow> double r | _ \<Rightarrow> True)"

subsection \<open>Arithmetic and comparison\<close>

fun jadd :: "jsnum \<Rightarrow> jsnum \<Rightarrow> jsnum" where
  "jadd NaN _ = NaN"
| "jadd _ NaN = NaN"
| "jadd (Fin a) (Fin b) = round64 (a + b)"
| "jadd PosInf NegInf = NaN"
| "jadd NegInf PosInf = NaN"
| "jadd PosInf _ = PosInf"
| "jadd _ PosInf = PosInf"
| "jadd NegInf _ = NegInf"
| "jadd _ NegInf = NegInf"

definition jsub :: "jsnum \<Rightarrow> jsnum \<Rightarrow> jsnum" where
  "jsub a b = jadd a (jneg b)"

fun jmul :: "jsnum \<Rightarrow> jsnum \<Rightarrow> jsnum" where
  "jmul NaN _ = NaN"
| "jmul _ NaN = NaN"
| "jmul (Fin a) (Fin b) = round64 (a * b)"
| "jmul PosInf (Fin b) = (if b = 0 then NaN else if 0 < b then PosInf else NegInf)"
| "jmul NegInf (Fin b) = (if b = 0 then NaN else if 0 < b then NegInf else PosInf)"
| "jmul (Fin a) PosInf = (if a = 0 then NaN else if 0 < a then PosInf else NegInf)"
| "jmul (Fin a) NegInf = (if a = 0 then NaN else if 0 < a then NegInf else PosInf)"
| "jmul PosInf PosInf = PosInf"
| "jmul NegInf NegInf = PosInf"
| "jmul PosInf NegInf = NegInf"
| "jmul NegInf PosInf = NegInf"

fun jdiv :: "jsnum \<Rightarrow> jsnum \<Rightarrow> jsnum" where
  "jdiv NaN _ = NaN"
| "jdiv _ NaN = NaN"
| "jdiv (Fin a) (Fin b) =
     (if b = 0 then (if a = 0 then NaN else if 0 < a then PosInf else NegInf)
      else round64 (a / b))"
| "jdiv (Fin a) _ = Fin 0"
| "jdiv PosInf (Fin b) = (if 0 \<le> b then PosInf else NegInf)"
| "jdiv NegInf (Fin b) = (if 0 \<le> b then NegInf else PosInf)"
| "jdiv _ _ = NaN"

text \<open>\<open>a < b\<close>; every comparison with \<open>NaN\<close> is false.\<close>

fun jlt :: "jsnum \<Rightarrow> jsnum \<Rightarrow> bool" where
  "jlt NaN _ = False"
| "jlt _ NaN = False"
| "jlt (Fin a) (Fin b) = (a < b)"
| "jlt NegInf NegInf = False"
| "jlt NegInf _ = True"
| "jlt _ NegInf = False"
| "jlt PosInf _ = False"
| "jlt _ PosInf = True"

definition jgt :: "jsnum \<Rightarrow> jsnum \<Rightarrow> bool" where
  "jgt a b = jlt b a"

text \<open>\<open>a <= b\<close>.\<close>

definition jle :: "jsnum \<Rightarrow> jsnum \<Rightarrow> bool" where
  "jle a b = (\<not> isNaN a \<and> \<not> isNaN b \<and> \<not> jlt b a)"

text \<open>\<open>Math.min\<close>, \<open>Math.max\<close> and \<open>Math.abs\<close>.\<close>

definition Math_min :: "jsnum \<Rightarrow> jsnum \<Rightarrow> jsnum" where
  "Math_min a b = (if isNaN a \<or> isNaN b then NaN else if jlt b a then b else a)"

definition Math_max :: "jsnum \<Rightarrow> jsnum \<Rightarrow> jsnum" where
  "Math_max a b = (if isNaN a \<or> isNaN b then NaN else if jlt a b then b else a)"

fun Math_abs :: "jsnum \<Rightarrow> jsnum" where
  "Math_abs NaN = NaN"
| "Math_abs NegInf = PosInf"
| "Math_abs (Fin a) = Fin \<bar>a\<bar>"
| "Math_abs PosInf = PosInf"

text \<open>A number is falsy when it is zero or \<open>NaN\<close>; \<open>x || d\<close> on numbers.\<close>

definition falsy :: "jsnum \<Rightarrow> bool" where
  "falsy x = (x = Fin 0 \<or> x = NaN)"

definition orElse :: "jsnum \<Rightarrow> jsnum \<Rightarrow> jsnum" where
  "orElse x d = (if falsy x then d else x)"

text \<open>A number that is not negative: a finite one from 0 on, or infinity.\<close>

definition nonneg :: "jsnum \<Rightarrow> bool" where
  "nonneg x = (x = PosInf \<or> (\<exists>t. x = Fin t \<and> 0 \<le> t))"

section \<open>Array.prototype.sort with a comparator\<close>

text \<open>
  \<open>xs.sort(cmp)\<close> is stable, and \<open>cmp a b > 0\<close> puts \<open>a\<close> after \<open>b\<close>; a result that
  is \<open>NaN\<close> (the difference of two infinities) counts as 0. Every comparator of the code
  is a difference of two keys that are never \<open>NaN\<close> where it is used, so it is
  consistent and the result is the one stable ordering, computed here by insertion.
\<close>

fun sort_insert :: "('a \<Rightarrow> 'a \<Rightarrow> jsnum) \<Rightarrow> 'a \<Rightarrow> 'a list \<Rightarrow> 'a list" where
  "sort_insert cmp x [] = [x]"
| "sort_insert cmp x (y # ys) =
     (if jgt (cmp x y) (Fin 0) then y # sort_insert cmp x ys else x # y # ys)"

definition js_sort :: "('a \<Rightarrow> 'a \<Rightarrow> jsnum) \<Rightarrow> 'a list \<Rightarrow> 'a list" where
  "js_sort cmp xs = foldr (sort_insert cmp) xs []"

text \<open>\<open>xs.reduce((a, b) => a + b, 0)\<close>\<close>

definition sumOf :: "jsnum list \<Rightarrow> jsnum" where
  "sumOf xs = foldl jadd (Fin 0) xs"

section \<open>services/calculator.js\<close>

text \<open>
  One side of a book is the object \<open>Bids\<close> or \<open>Asks\<close>: its entries in the order
  \<open>Object.keys\<close> lists them, each entry given by \<open>parseFloat\<close> of its key and by its
  value as the JSON has it. A side that is absent (\<open>undefined\<close>, \<open>null\<close>) is \<open>None\<close>,
  and so is an absent book.

  A value is a number, or something else (a string, \<open>null\<close>): of such a value the model
  keeps the three things the code observes, what \<open>parseFloat\<close> reads from it, what the
  conversion to a number gives (the one \<open>Math.max\<close> applies to its arguments), and
  whether it is truthy (the test of \<open>||\<close>). For the string \<open>"abc"\<close> these are \<open>NaN\<close>,
  \<open>NaN\<close> and true, for \<open>"1.5"\<close> they are 1.5, 1.5 and true, for \<open>""\<close> they are
  \<open>NaN\<close>, 0 and false.
\<close>

datatype rawValue = NumberValue jsnum | OtherValue jsnum jsnum bool

fun parseFloat :: "rawValue \<Rightarrow> jsnum" where
  "parseFloat (NumberValue x) = x"
| "parseFloat (OtherValue parsed converted isTruthy) = parsed"

fun toNumber :: "rawValue \<Rightarrow> jsnum" where
  "toNumber (NumberValue x) = x"
| "toNumber (OtherValue parsed converted isTruthy) = converted"

fun truthy :: "rawValue \<Rightarrow> bool" where
  "truthy (NumberValue x) = (\<not> falsy x)"
| "truthy (OtherValue parsed converted isTruthy) = isTruthy"

type_synonym side = "(jsnum \<times> rawValue) list"

record orderBook =
  Bids :: "side option"
  Asks :: "side option"
  Sources :: "string list option"
  Exchange :: "string option"

record bestPrices =
  bestBid :: jsnum
  bestAsk :: jsnum
  spread :: jsnum
  spreadPercent :: jsnum
  midPrice :: jsnum

definition zeroPrices :: bestPrices where
  "zeroPrices = \<lparr> bestBid = Fin 0, bestAsk = Fin 0, spread = Fin 0,
                  spreadPercent = Fin 0, midPrice = Fin 0 \<rparr>"

definition positivePrices :: "side \<Rightarrow> jsnum list" where
  "positivePrices s = filter (\<lambda>price. \<not> isNaN price \<and> jgt price (Fin 0)) (map fst s)"

definition firstOr0 :: "jsnum list \<Rightarrow> jsnum" where
  "firstOr0 ps = (case ps of [] \<Rightarrow> Fin 0 | p # _ \<Rightarrow> p)"

definition getBestPrices :: "orderBook option \<Rightarrow> bestPrices" where
  "getBestPrices orderBook =
     (case orderBook of
        None \<Rightarrow> zeroPrices
      | Some ob \<Rightarrow>
         (case (Bids ob, Asks ob) of
            (Some bids, Some asks) \<Rightarrow>
              (let bidPrices = js_sort (\<lambda>a b. jsub b a) (positivePrices bids);
                   askPrices = js_sort (\<lambda>a b. jsub a b) (positivePrices asks);
                   bestBid = firstOr0 bidPrices;
                   bestAsk = firstOr0 askPrices;
                   spread = jsub bestAsk bestBid;
                   midPrice = (if jgt bestBid (Fin 0) \<and> jgt bestAsk (Fin 0)
                               then jdiv (jadd bestBid bestAsk) (Fin 2) else Fin 0);
                   spreadPercent = (if jgt midPrice (Fin 0)
                                    then jmul (jdiv spread midPrice) (Fin 100) else Fin 0)
               in \<lparr> bestBid = bestBid, bestAsk = bestAsk, spread = spread,
                     spreadPercent = spreadPercent, midPrice = midPrice \<rparr>)
          | _ \<Rightarrow> zeroPrices))"

subsection \<open>calculateVWAP\<close>

record order =
  price :: jsnum
  quantity :: jsnum

record filledOrder = order +
  cost :: jsnum

text \<open>\<open>Object.entries(orders).map(...).filter(order => order.price > 0 && order.quantity > 0)\<close>\<close>

definition validOrders :: "side \<Rightarrow> order list" where
  "validOrders orders =
     filter (\<lambda>order. jgt (price order) (Fin 0) \<and> jgt (quantity order) (Fin 0))
       (map (\<lambda>(p, qty). \<lparr> price = p, quantity = parseFloat qty \<rparr>) orders)"

text \<open>The side a market order of \<open>side\<close> consumes: \<open>side === 'buy' ? Asks : Bids\<close>.\<close>

definition consumedSide :: "orderBook \<Rightarrow> string \<Rightarrow> side option" where
  "consumedSide ob side = (if side = ''buy'' then Asks ob else Bids ob)"

definition sortedOrders :: "side \<Rightarrow> string \<Rightarrow> order list" where
  "sortedOrders orders side =
     js_sort (\<lambda>a b. if side = ''buy'' then jsub (price a) (price b)
                      else jsub (price b) (price a))
       (validOrders orders)"

text \<open>
  The \<open>for ... of\<close> loop over the sorted orders; the state is
  \<open>(remainingVolume, totalCost, totalFilled, filledOrders)\<close>.
\<close>

fun fillLoop ::
  "order list \<Rightarrow> jsnum \<times> jsnum \<times> jsnum \<times> filledOrder list
     \<Rightarrow> jsnum \<times> jsnum \<times> jsnum \<times> filledOrder list" where
  "fillLoop [] st = st"
| "fillLoop (order # rest) (remainingVolume, totalCost, totalFilled, filledOrders) =
     (if jle remainingVolume (Fin 0)
      then (remainingVolume, totalCost, totalFilled, filledOrders)
      else
        (let fillQuantity = Math_min remainingVolume (quantity order);
             fillCost = jmul fillQuantity (price order)
         in fillLoop rest
              (jsub remainingVolume fillQuantity,
               jadd totalCost fillCost,
               jadd totalFilled fillQuantity,
               filledOrders @ [\<lparr> price = price order, quantity = fillQuantity,
                                  cost = fillCost \<rparr>])))"

text \<open>
  The early returns of \<open>calculateVWAP\<close> build an object without \<open>averagePrice\<close>,
  \<open>totalCost\<close> and \<open>filledOrders\<close>: these fields are optional.
\<close>

record vwapResult =
  vwap :: jsnum
  totalVolume :: jsnum
  remainingVolume :: jsnum
  priceImpact :: jsnum
  averagePrice :: "jsnum option"
  totalCost :: "jsnum option"
  filledOrders :: "filledOrder list option"

definition emptyVWAP :: "jsnum \<Rightarrow> vwapResult" where
  "emptyVWAP volume =
     \<lparr> vwap = Fin 0, totalVolume = Fin 0, remainingVolume = volume, priceImpact = Fin 0,
       averagePrice = None, totalCost = None, filledOrders = None \<rparr>"

definition calculateVWAP :: "orderBook option \<Rightarrow> jsnum \<Rightarrow> string \<Rightarrow> vwapResult" where
  "calculateVWAP orderBook volume side =
     (case orderBook of
        None \<Rightarrow> emptyVWAP volume
      | Some ob \<Rightarrow>
          if jle volume (Fin 0) then emptyVWAP volume
          else
            (case consumedSide ob side of
               None \<Rightarrow> emptyVWAP volume
             | Some orders \<Rightarrow>
                 if length orders = 0 then emptyVWAP volume
                 else
                   (let (remainingVolume, totalCost, totalFilled, filledOrders) =
                          fillLoop (sortedOrders orders side) (volume, Fin 0, Fin 0, [])
                    in
                        (let vwap = (if jgt totalFilled (Fin 0)
                                     then jdiv totalCost totalFilled else Fin 0);
                             bestPrice = getBestPrices orderBook;
                             referencePrice = (if side = ''buy'' then bestAsk bestPrice
                                               else bestBid bestPrice);
                             priceImpact =
                               (if jgt referencePrice (Fin 0)
                                then jmul (jdiv (jsub vwap referencePrice) referencePrice)
                                       (Fin 100)
                                else Fin 0)
                         in \<lparr> vwap = vwap, totalVolume = totalFilled,
                               remainingVolume = remainingVolume, priceImpact = priceImpact,
                               averagePrice = Some vwap, totalCost = Some totalCost,
                               filledOrders = Some filledOrders \<rparr>))))"

text \<open>
  For the statements about \<open>calculateVWAP\<close>, from the words of the specification: the
  levels of a side that hold something, those with a price and a quantity greater than 0
  (none when the side is missing); the order of a visit toward the market (ascending prices
  for \<open>'buy'\<close>, descending prices otherwise); the fills of a result (none in an early
  return); a whole number from 0 to \<open>2 ^ 53\<close>, and the real number a finite quantity
  denotes.
\<close>

definition positiveLevels :: "side option \<Rightarrow> order list" where
  "positiveLevels s =
     (case s of
        None \<Rightarrow> []
      | Some entries \<Rightarrow>
          map (\<lambda>e. \<lparr> price = fst e, quantity = parseFloat (snd e) \<rparr>)
            (filter (\<lambda>e. jgt (fst e) (Fin 0) \<and> jgt (parseFloat (snd e)) (Fin 0)) entries))"

definition whole :: "jsnum \<Rightarrow> bool" where
  "whole x = (case x of
                Fin r \<Rightarrow> 0 \<le> r \<and> r \<le> 2 ^ 53 \<and> of_int \<lfloor>r\<rfloor> = r
              | _ \<Rightarrow> False)"

definition realOf :: "jsnum \<Rightarrow> real" where
  "realOf x = (case x of Fin r \<Rightarrow> r | _ \<Rightarrow> 0)"

definition towardMarket :: "string \<Rightarrow> order \<Rightarrow> order \<Rightarrow> bool" where
  "towardMarket side a b =
     (if side = ''buy'' then \<not> jlt (price b) (price a) else \<not> jlt (price a) (price b))"

definition fillsOf :: "vwapResult \<Rightarrow> filledOrder list" where
  "fillsOf r = (case filledOrders r of None \<Rightarrow> [] | Some fills \<Rightarrow> fills)"

text \<open>The book of the examples: no bids, asks \<open>{100: 1, 101: 2}\<close>.\<close>

definition asks12 :: orderBook where
  "asks12 = \<lparr> Bids = Some [],
              Asks = Some [(Fin 100, NumberValue (Fin 1)), (Fin 101, NumberValue (Fin 2))],
              Sources = None, Exchange = None \<rparr>"

subsection \<open>calculateMarketDepth\<close>

record depthLevel = order +
  cumulativeVolume :: jsnum
  total :: jsnum

text \<open>The early return has no \<open>imbalance\<close> field.\<close>

record depthResult =
  bidDepth :: "depthLevel list"
  askDepth :: "depthLevel list"
  totalBidVolume :: jsnum
  totalAskVolume :: jsnum
  imbalance :: "jsnum option"

text \<open>The \<open>map\<close> that accumulates \<open>cumulativeVolume\<close> over the sorted levels.\<close>

fun cumulate :: "jsnum \<Rightarrow> order list \<Rightarrow> depthLevel list" where
  "cumulate running [] = []"
| "cumulate running (order # rest) =
     (let running' = jadd running (quantity order)
      in \<lparr> price = price order, quantity = quantity order,
            cumulativeVolume = running',
            total = jmul (price order) (quantity order) \<rparr>
         # cumulate running' rest)"

text \<open>
  \<open>levels\<close> is a count of price levels, a natural number here; \<open>slice(0, levels)\<close>
  is \<open>take levels\<close>.
\<close>

definition processSide :: "nat \<Rightarrow> side \<Rightarrow> bool \<Rightarrow> depthLevel list" where
  "processSide levels orders isAsk =
     cumulate (Fin 0)
       (take levels
          (js_sort (\<lambda>a b. if isAsk then jsub (price a) (price b)
                           else jsub (price b) (price a))
             (validOrders orders)))"

definition calculateMarketDepth :: "orderBook option \<Rightarrow> nat \<Rightarrow> depthResult" where
  "calculateMarketDepth orderBook levels =
     (case orderBook of
        None \<Rightarrow> \<lparr> bidDepth = [], askDepth = [], totalBidVolume = Fin 0,
                   totalAskVolume = Fin 0, imbalance = None \<rparr>
      | Some ob \<Rightarrow>
         (case (Bids ob, Asks ob) of
            (Some bids, Some asks) \<Rightarrow>
              (let bidDepth = processSide levels bids False;
                   askDepth = processSide levels asks True;
                   totalBidVolume = foldl (\<lambda>sum level. jadd sum (quantity level)) (Fin 0) bidDepth;
                   totalAskVolume = foldl (\<lambda>sum level. jadd sum (quantity level)) (Fin 0) askDepth
               in \<lparr> bidDepth = bidDepth, askDepth = askDepth,
                     totalBidVolume = totalBidVolume, totalAskVolume = totalAskVolume,
                     imbalance = Some (jdiv (jsub totalBidVolume totalAskVolume)
                                            (jadd totalBidVolume totalAskVolume)) \<rparr>)
          | _ \<Rightarrow> \<lparr> bidDepth = [], askDepth = [], totalBidVolume = Fin 0,
                   totalAskVolume = Fin 0, imbalance = None \<rparr>))"

subsection \<open>calculateQualityMetrics\<close>

text \<open>
  The fields \<open>spread\<close> and \<open>midPrice\<close> of the metrics carry the suffix \<open>_q\<close>, the
  names being taken by the best prices; the early return has no \<open>midPrice\<close>.
\<close>

record qualityMetrics =
  spread_q :: jsnum
  spreadBps :: jsnum
  depth :: jsnum
  liquidity :: jsnum
  efficiency :: jsnum
  stability :: jsnum
  midPrice_q :: "jsnum option"

definition calculateQualityMetrics :: "orderBook option \<Rightarrow> qualityMetrics" where
  "calculateQualityMetrics orderBook =
     (let bestPrices = getBestPrices orderBook;
          depth = calculateMarketDepth orderBook 20
      in if falsy (bestBid bestPrices) \<or> falsy (bestAsk bestPrices)
         then \<lparr> spread_q = Fin 0, spreadBps = Fin 0, depth = Fin 0, liquidity = Fin 0,
                 efficiency = Fin 0, stability = Fin 0, midPrice_q = None \<rparr>
         else
           (let spreadBps = jmul (jdiv (spread bestPrices) (midPrice bestPrices)) (Fin 10000);
                totalNearVolume = jadd (totalBidVolume depth) (totalAskVolume depth);
                liquidity = jdiv totalNearVolume (midPrice bestPrices);
                efficiency = (if jgt liquidity (Fin 0)
                              then jdiv (Fin 1) (jmul spreadBps (jdiv (Fin 1) liquidity))
                              else Fin 0);
                stability = jsub (Fin 1)
                              (Math_abs (case imbalance depth of
                                           None \<Rightarrow> Fin 0 | Some i \<Rightarrow> orElse i (Fin 0)))
            in \<lparr> spread_q = spread bestPrices, spreadBps = spreadBps,
                  depth = totalNearVolume, liquidity = liquidity, efficiency = efficiency,
                  stability = stability, midPrice_q = Some (midPrice bestPrices) \<rparr>))"

subsection \<open>calculateOptimalSizing\<close>

text \<open>Reading a property of \<open>null\<close> or \<open>undefined\<close> throws a \<open>TypeError\<close>.\<close>

datatype error = TypeError

record recommendation =
  size_r :: jsnum
  price_r :: jsnum
  slippage :: jsnum
  cost_r :: "jsnum option"

text \<open>
  The \<open>while (currentSize < 1000)\<close> loop. Nothing in the loop itself bounds the number of
  rounds (a step that is not positive never reaches 1000), so the loop is a partial function
  and \<open>None\<close> stands for a loop that does not return; that the loop does return for the
  step the caller computes is a theorem below.
\<close>

partial_function (option) sizingLoop ::
  "orderBook option \<Rightarrow> jsnum \<Rightarrow> string \<Rightarrow> jsnum \<Rightarrow> jsnum \<Rightarrow> jsnum
     \<Rightarrow> recommendation list \<Rightarrow> recommendation list option" where
  "sizingLoop orderBook maxSlippage side referencePrice step currentSize recommendations =
     (if jlt currentSize (Fin 1000)
      then
        (let currentSize' = jadd currentSize step;
             vwap = calculateVWAP orderBook currentSize' side
         in if jgt (remainingVolume vwap) (Fin 0) then Some recommendations
            else
              (let slippage = jmul (jdiv (jsub (vwapResult.vwap vwap) referencePrice)
                                         referencePrice) (Fin 100);
                   recommendations' = recommendations @
                     [\<lparr> size_r = currentSize', price_r = vwapResult.vwap vwap,
                        slippage = slippage, cost_r = totalCost vwap \<rparr>]
               in if jgt (Math_abs slippage) maxSlippage then Some recommendations'
                  else sizingLoop orderBook maxSlippage side referencePrice step
                         currentSize' recommendations'))
      else Some recommendations)"

text \<open>The early return has no \<open>referencePrice\<close>.\<close>

record sizing =
  maxSize :: jsnum
  recommendations :: "recommendation list"
  referencePrice :: "jsnum option"

text \<open>
  \<open>Math.max(Object.values(orders)[0] || 0, 0.01)\<close>: the value of the entry that
  \<open>Object.values\<close> lists first, as it is (no \<open>parseFloat\<close>), converted to a number by
  \<open>Math.max\<close>; the literal \<open>0.01\<close> is the double nearest to 1/100.
\<close>

definition sizingStep :: "side \<Rightarrow> jsnum" where
  "sizingStep orders =
     Math_max (case orders of
                 [] \<Rightarrow> Fin 0
               | (p, qty) # _ \<Rightarrow> if truthy qty then toNumber qty else Fin 0)
              (round64 (1 / 100))"

definition lastSize :: "recommendation list \<Rightarrow> jsnum" where
  "lastSize recs = (if length recs > 0 then size_r (last recs) else Fin 0)"

definition calculateOptimalSizing ::
  "orderBook option \<Rightarrow> jsnum \<Rightarrow> string \<Rightarrow> (error + sizing) option" where
  "calculateOptimalSizing orderBook maxSlippage side =
     (case orderBook of
        None \<Rightarrow> Some (Inl TypeError)
      | Some ob \<Rightarrow>
         (case consumedSide ob side of
            None \<Rightarrow> Some (Inr \<lparr> maxSize = Fin 0, recommendations = [],
                                  referencePrice = None \<rparr>)
          | Some orders \<Rightarrow>
              if length orders = 0
              then Some (Inr \<lparr> maxSize = Fin 0, recommendations = [],
                                referencePrice = None \<rparr>)
              else
                (let bestPrices = getBestPrices orderBook;
                     reference = (if side = ''buy'' then bestAsk bestPrices
                                  else bestBid bestPrices);
                     step = sizingStep orders
                 in map_option
                      (\<lambda>recs. Inr \<lparr> maxSize = lastSize recs, recommendations = recs,
                                     referencePrice = Some reference \<rparr>)
                      (sizingLoop orderBook maxSlippage side reference step (Fin 0) []))))"

subsection \<open>compareOrderBooks\<close>

text \<open>
  An entry of \<open>exchangeData\<close> is the object
  \<open>{exchange, ...prices, ...quality, orderBook: ob}\<close>; the two spread objects are kept as
  the fields \<open>prices\<close> and \<open>quality\<close>. The code reads \<open>bestBid\<close>, \<open>bestAsk\<close> and
  \<open>spreadPercent\<close>, which only \<open>prices\<close> has, \<open>efficiency\<close>, which only \<open>quality\<close>
  has, and \<open>midPrice\<close>, where \<open>quality\<close> overrides \<open>prices\<close> when it has the field.
\<close>

record exchangeEntry =
  exchange :: string
  prices :: bestPrices
  quality :: qualityMetrics
  orderBook_e :: orderBook

definition entryMidPrice :: "exchangeEntry \<Rightarrow> jsnum" where
  "entryMidPrice d = (case midPrice_q (quality d) of
                        Some m \<Rightarrow> m | None \<Rightarrow> midPrice (prices d))"

text \<open>\<open>ob.Sources?.[0] || ob.Exchange || 'Unknown'\<close>; an empty string is falsy.\<close>

definition exchangeName :: "orderBook \<Rightarrow> string" where
  "exchangeName ob =
     (let fromSources = (case Sources ob of Some (s # _) \<Rightarrow> s | _ \<Rightarrow> [])
      in if fromSources \<noteq> [] then fromSources
         else (case Exchange ob of
                 Some e \<Rightarrow> (if e \<noteq> [] then e else ''Unknown'')
               | None \<Rightarrow> ''Unknown''))"

text \<open>
  The callback of \<open>orderBooks.map\<close>: the two calculator calls accept a missing book, the
  read of \<open>ob.Sources\<close> does not.
\<close>

definition toExchangeEntry :: "orderBook option \<Rightarrow> error + exchangeEntry" where
  "toExchangeEntry ob =
     (let prices = getBestPrices ob;
          quality = calculateQualityMetrics ob
      in case ob of
           None \<Rightarrow> Inl TypeError
         | Some b \<Rightarrow> Inr \<lparr> exchange = exchangeName b, prices = prices, quality = quality,
                            orderBook_e = b \<rparr>)"

fun mapEntries :: "orderBook option list \<Rightarrow> error + exchangeEntry list" where
  "mapEntries [] = Inr []"
| "mapEntries (ob # rest) =
     (case toExchangeEntry ob of
        Inl e \<Rightarrow> Inl e
      | Inr d \<Rightarrow> (case mapEntries rest of Inl e \<Rightarrow> Inl e | Inr ds \<Rightarrow> Inr (d # ds)))"

record arbitrageOpportunity =
  buyExchange :: string
  sellExchange :: string
  buyPrice :: jsnum
  sellPrice :: jsnum
  profit :: jsnum
  profitPercent :: jsnum

text \<open>The inner loop over \<open>j\<close> for a fixed \<open>buy = exchangeData[i]\<close>, and the outer loop.\<close>

fun arbitrageWith :: "exchangeEntry \<Rightarrow> exchangeEntry list \<Rightarrow> arbitrageOpportunity list" where
  "arbitrageWith buy [] = []"
| "arbitrageWith buy (sell # rest) =
     (if jlt (bestAsk (prices buy)) (bestBid (prices sell))
      then [\<lparr> buyExchange = exchange buy, sellExchange = exchange sell,
               buyPrice = bestAsk (prices buy), sellPrice = bestBid (prices sell),
               profit = jsub (bestBid (prices sell)) (bestAsk (prices buy)),
               profitPercent =
                 jmul (jdiv (jsub (bestBid (prices sell)) (bestAsk (prices buy)))
                            (bestAsk (prices buy))) (Fin 100) \<rparr>]
      else [])
     @ (if jlt (bestAsk (prices sell)) (bestBid (prices buy))
        then [\<lparr> buyExchange = exchange sell, sellExchange = exchange buy,
                 buyPrice = bestAsk (prices sell), sellPrice = bestBid (prices buy),
                 profit = jsub (bestBid (prices buy)) (bestAsk (prices sell)),
                 profitPercent =
                   jmul (jdiv (jsub (bestBid (prices buy)) (bestAsk (prices sell)))
                              (bestAsk (prices sell))) (Fin 100) \<rparr>]
        else [])
     @ arbitrageWith buy rest"

fun findArbitrage :: "exchangeEntry list \<Rightarrow> arbitrageOpportunity list" where
  "findArbitrage [] = []"
| "findArbitrage (buy # rest) = arbitrageWith buy rest @ findArbitrage rest"

record summary =
  averageSpread :: jsnum
  averageMidPrice :: jsnum
  spreadRange :: "jsnum \<times> jsnum"
  priceRange :: "jsnum \<times> jsnum"
  exchanges :: "string list"

text \<open>\<open>Math.min(...xs)\<close> and \<open>Math.max(...xs)\<close>.\<close>

definition minOf :: "jsnum list \<Rightarrow> jsnum" where
  "minOf xs = foldl Math_min PosInf xs"

definition maxOf :: "jsnum list \<Rightarrow> jsnum" where
  "maxOf xs = foldl Math_max NegInf xs"

record compareResult =
  arbitrage :: "arbitrageOpportunity list"
  bestExchange :: "string option"
  exchangeData :: "exchangeEntry list option"
  summary :: "summary option"

definition emptyComparison :: compareResult where
  "emptyComparison = \<lparr> arbitrage = [], bestExchange = None, exchangeData = None,
                        summary = None \<rparr>"

text \<open>The argument is \<open>None\<close> when it is not an array.\<close>

definition compareOrderBooks :: "orderBook option list option \<Rightarrow> error + compareResult" where
  "compareOrderBooks orderBooks =
     (case orderBooks of
        None \<Rightarrow> Inr emptyComparison
      | Some obs \<Rightarrow>
          if length obs < 2 then Inr emptyComparison
          else
            (case mapEntries obs of
               Inl e \<Rightarrow> Inl e
             | Inr mapped \<Rightarrow>
                (let data = filter (\<lambda>d. jgt (bestBid (prices d)) (Fin 0)
                                        \<and> jgt (bestAsk (prices d)) (Fin 0)) mapped
                 in if length data < 2 then Inr emptyComparison
                    else
                      (case data of
                         [] \<Rightarrow> Inl TypeError
                       | first # others \<Rightarrow>
                          (let found = findArbitrage data;
                               best = foldl (\<lambda>best current.
                                        if jgt (orElse (efficiency (quality current)) (Fin 0))
                                               (orElse (efficiency (quality best)) (Fin 0))
                                        then current else best) first others;
                               spreads = map (\<lambda>d. spreadPercent (prices d)) data;
                               midPrices = map entryMidPrice data
                           in Inr \<lparr> arbitrage =
                                      js_sort (\<lambda>a b. jsub (profitPercent b) (profitPercent a))
                                        found,
                                    bestExchange = Some (exchange best),
                                    exchangeData = Some data,
                                    summary = Some
                                      \<lparr> averageSpread =
                                          jdiv (sumOf spreads) (Fin (real (length spreads))),
                                        averageMidPrice =
                                          jdiv (sumOf midPrices) (Fin (real (length midPrices))),
                                        spreadRange = (minOf spreads, maxOf spreads),
                                        priceRange = (minOf midPrices, maxOf midPrices),
                                        exchanges = map exchange data \<rparr> \<rparr>)))))"

text \<open>Two books for the examples: one with both sides empty, one with a bid and an ask.\<close>

definition emptyBook :: orderBook where
  "emptyBook = \<lparr> Bids = Some [], Asks = Some [], Sources = None, Exchange = None \<rparr>"

definition binance :: orderBook where
  "binance = \<lparr> Bids = Some [(Fin 99, NumberValue (Fin 1))],
               Asks = Some [(Fin 100, NumberValue (Fin 1))],
               Sources = Some [''binance''], Exchange = None \<rparr>"

text \<open>
  Three books for the examples of \<open>calculateVWAP\<close> and \<open>calculateOptimalSizing\<close>: asks
  \<open>{64: 1, 128: 1}\<close>; asks that the object lists with the higher price first,
  \<open>{"1.5": 2, "0.5": 1}\<close>; and asks \<open>{100: 0.1, 101: 0.2, 102: 0.3}\<close>, the quantities
  being the doubles these literals denote.
\<close>

definition asks64_128 :: orderBook where
  "asks64_128 = \<lparr> Bids = Some [],
                  Asks = Some [(Fin 64, NumberValue (Fin 1)), (Fin 128, NumberValue (Fin 1))],
                  Sources = None, Exchange = None \<rparr>"

definition asksUnordered :: orderBook where
  "asksUnordered = \<lparr> Bids = Some [],
                     Asks = Some [(Fin (3 / 2), NumberValue (Fin 2)),
                                  (Fin (1 / 2), NumberValue (Fin 1))],
                     Sources = None, Exchange = None \<rparr>"

definition asksTenths :: orderBook where
  "asksTenths = \<lparr> Bids = Some [],
                  Asks = Some [(Fin 100, NumberValue (round64 (1 / 10))),
                               (Fin 101, NumberValue (round64 (2 / 10))),
                               (Fin 102, NumberValue (round64 (3 / 10)))],
                  Sources = None, Exchange = None \<rparr>"

section \<open>hooks/useWebSocket.js\<close>

subsection \<open>Messages\<close>

text \<open>
  A JSON value, as \<open>JSON.parse\<close> returns it and \<open>JSON.stringify\<close> takes it. The two
  functions themselves are parameters of the model (\<open>parse\<close> gives \<open>None\<close> where
  \<open>JSON.parse\<close> throws), and so is the clock: \<open>now\<close> stands for \<open>Date.now()\<close>.
\<close>

datatype json =
    JNull
  | JBool bool
  | JNum real
  | JStr string
  | JArr "json list"
  | JObj "(string \<times> json) list"

text \<open>What \<open>sendMessage\<close> is given: \<open>typeof message === 'string'\<close> or not.\<close>

datatype outbound = Str string | Obj json

text \<open>What \<open>onMessage\<close> is called with: the parsed message or the raw text.\<close>

datatype payload = Parsed json | Raw string

text \<open>\<open>j.type\<close> for a value that is not \<open>null\<close>; a primitive or an array has no such property.\<close>

definition typeField :: "json \<Rightarrow> json option" where
  "typeField j = (case j of JObj props \<Rightarrow> map_of props ''type'' | _ \<Rightarrow> None)"

text \<open>\<open>Array.isArray(channels) ? channels : [channels]\<close>\<close>

definition channelList :: "json \<Rightarrow> json list" where
  "channelList channels = (case channels of JArr cs \<Rightarrow> cs | c \<Rightarrow> [c])"

definition subscribeMessage :: "nat \<Rightarrow> json \<Rightarrow> json" where
  "subscribeMessage now channels =
     JObj [(''type'', JStr ''subscribe''),
           (''channels'', JArr (channelList channels)),
           (''timestamp'', JNum (real now))]"

definition unsubscribeMessage :: "nat \<Rightarrow> json \<Rightarrow> json" where
  "unsubscribeMessage now channels =
     JObj [(''type'', JStr ''unsubscribe''),
           (''channels'', JArr (channelList channels)),
           (''timestamp'', JNum (real now))]"

text \<open>The heartbeat: \<open>{ type: 'ping', timestamp: Date.now() }\<close>.\<close>

definition pingMessage :: "nat \<Rightarrow> json" where
  "pingMessage now = JObj [(''type'', JStr ''ping''), (''timestamp'', JNum (real now))]"

subsection \<open>The socket, the timers and the state of the hook\<close>

datatype readyState = CONNECTING | OPEN | CLOSING | CLOSED

datatype closeCall = Close | CloseWith nat string

text \<open>
  The \<open>WebSocket\<close> object in \<open>webSocketRef.current\<close>: its own \<open>readyState\<close>, the frames
  handed to \<open>send\<close>, and the calls of \<open>close\<close>.
\<close>

record socket =
  sockReadyState :: readyState
  sent :: "string list"
  closeCalls :: "closeCall list"

definition socket_send :: "string \<Rightarrow> socket \<Rightarrow> socket" where
  "socket_send frame sock = sock\<lparr> sent := sent sock @ [frame] \<rparr>"

text \<open>\<open>close\<close> starts the closing handshake unless the socket is closing or closed already.\<close>

definition socket_close :: "closeCall \<Rightarrow> socket \<Rightarrow> socket" where
  "socket_close c sock =
     sock\<lparr> closeCalls := closeCalls sock @ [c],
            sockReadyState := (if sockReadyState sock = CLOSING \<or> sockReadyState sock = CLOSED
                               then sockReadyState sock else CLOSING) \<rparr>"

text \<open>
  A pending \<open>setTimeout\<close>: its id, which callback it runs and its delay in milliseconds.
  \<open>Reconnect\<close> is the callback of the close handler, \<open>Heartbeat\<close> the one of
  \<open>startHeartbeat\<close>, \<open>ForcedConnect\<close> the \<open>setTimeout(connect, 100)\<close> of \<open>reconnect\<close>.
\<close>

datatype timerAction = Reconnect | Heartbeat | ForcedConnect

record timer =
  timerId :: nat
  action :: timerAction
  delay :: real

record wsOptions =
  reconnectAttempts :: nat
  reconnectInterval :: real
  heartbeatInterval :: real
  shouldReconnect :: bool
  retryOnError :: bool

definition defaultOptions :: wsOptions where
  "defaultOptions = \<lparr> reconnectAttempts = 5, reconnectInterval = 3000,
                       heartbeatInterval = 30000, shouldReconnect = True,
                       retryOnError = True \<rparr>"

text \<open>
  The React state and the refs of the hook, with the timers that are pending in the event
  loop. \<open>messageQueueRef\<close> is the outbound queue.
\<close>

record wsState =
  readyState :: readyState
  lastMessage :: "string option"
  lastJsonMessage :: "json option"
  connectionAttempts :: nat
  isConnected :: bool
  error :: "string option"
  webSocketRef :: "socket option"
  reconnectTimeoutRef :: "nat option"
  heartbeatTimeoutRef :: "nat option"
  messageQueueRef :: "string list"
  urlRef :: "string option"
  timers :: "timer list"
  nextTimerId :: nat

definition initialState :: "string option \<Rightarrow> wsState" where
  "initialState url =
     \<lparr> readyState = CONNECTING, lastMessage = None, lastJsonMessage = None,
       connectionAttempts = 0, isConnected = False, error = None, webSocketRef = None,
       reconnectTimeoutRef = None, heartbeatTimeoutRef = None, messageQueueRef = [],
       urlRef = url, timers = [], nextTimerId = 1 \<rparr>"

definition setTimeout :: "timerAction \<Rightarrow> real \<Rightarrow> wsState \<Rightarrow> nat \<times> wsState" where
  "setTimeout a d st =
     (nextTimerId st,
      st\<lparr> timers := timers st @ [\<lparr> timerId = nextTimerId st, action = a, delay = d \<rparr>],
          nextTimerId := nextTimerId st + 1 \<rparr>)"

definition clearTimeout :: "nat \<Rightarrow> wsState \<Rightarrow> wsState" where
  "clearTimeout i st = st\<lparr> timers := filter (\<lambda>t. timerId t \<noteq> i) (timers st) \<rparr>"

definition clearTimeouts :: "wsState \<Rightarrow> wsState" where
  "clearTimeouts st =
     (let st1 = (case reconnectTimeoutRef st of
                   Some i \<Rightarrow> (clearTimeout i st)\<lparr> reconnectTimeoutRef := None \<rparr>
                 | None \<Rightarrow> st)
      in case heartbeatTimeoutRef st1 of
           Some i \<Rightarrow> (clearTimeout i st1)\<lparr> heartbeatTimeoutRef := None \<rparr>
         | None \<Rightarrow> st1)"

subsection \<open>Heartbeat and outbound queue\<close>

definition startHeartbeat :: "wsOptions \<Rightarrow> wsState \<Rightarrow> wsState" where
  "startHeartbeat opts st =
     (if heartbeatInterval opts > 0
      then (let (i, st') = setTimeout Heartbeat (heartbeatInterval opts) st
            in st'\<lparr> heartbeatTimeoutRef := Some i \<rparr>)
      else st)"

text \<open>The callback of the heartbeat timer.\<close>

definition heartbeatCallback ::
  "(json \<Rightarrow> string) \<Rightarrow> nat \<Rightarrow> wsOptions \<Rightarrow> wsState \<Rightarrow> wsState" where
  "heartbeatCallback JSON_stringify now opts st =
     (case webSocketRef st of
        Some sock \<Rightarrow>
          if sockReadyState sock = OPEN
          then startHeartbeat opts
                 (st\<lparr> webSocketRef :=
                        Some (socket_send (JSON_stringify (pingMessage now)) sock) \<rparr>)
          else st
      | None \<Rightarrow> st)"

text \<open>
  \<open>processMessageQueue\<close>: while the queue is not empty and the socket is open, shift the
  first message and send it.
\<close>

fun flushQueue :: "string list \<Rightarrow> socket \<Rightarrow> string list \<times> socket" where
  "flushQueue [] sock = ([], sock)"
| "flushQueue (message # rest) sock =
     (if sockReadyState sock = OPEN then flushQueue rest (socket_send message sock)
      else (message # rest, sock))"

definition processMessageQueue :: "wsState \<Rightarrow> wsState" where
  "processMessageQueue st =
     (case webSocketRef st of
        None \<Rightarrow> st
      | Some sock \<Rightarrow>
          (let (queue, sock') = flushQueue (messageQueueRef st) sock
           in st\<lparr> messageQueueRef := queue, webSocketRef := Some sock' \<rparr>))"

subsection \<open>connect and the handlers it installs\<close>

text \<open>
  \<open>connect\<close>; \<open>constructed\<close> tells whether \<open>new WebSocket(url, protocols)\<close> returns a
  socket or throws. A socket that is replaced keeps its handlers in the code; the events of
  replaced sockets are not part of this model.
\<close>

definition connect :: "bool \<Rightarrow> wsState \<Rightarrow> wsState" where
  "connect constructed st =
     (case urlRef st of
        None \<Rightarrow> st
      | Some url \<Rightarrow>
          if url = [] then st
          else
          (let st1 = st\<lparr> error := None \<rparr>;
               st2 = (case webSocketRef st1 of
                        Some old \<Rightarrow> st1\<lparr> webSocketRef := Some (socket_close Close old) \<rparr>
                      | None \<Rightarrow> st1)
           in if constructed
              then st2\<lparr> webSocketRef :=
                          Some \<lparr> sockReadyState = CONNECTING, sent = [], closeCalls = [] \<rparr>,
                        readyState := CONNECTING \<rparr>
              else st2\<lparr> error := Some ''Failed to create WebSocket'' \<rparr>))"

text \<open>The \<open>onopen\<close> handler; the caller's \<open>onOpen\<close> runs last.\<close>

definition onopen :: "wsOptions \<Rightarrow> wsState \<Rightarrow> wsState" where
  "onopen opts st =
     processMessageQueue
       (startHeartbeat opts
          (st\<lparr> readyState := OPEN, isConnected := True, connectionAttempts := 0,
               error := None \<rparr>))"

text \<open>\<open>reconnectInterval * Math.pow(1.5, nextAttempt - 1)\<close>\<close>

definition reconnectDelay :: "real \<Rightarrow> nat \<Rightarrow> real" where
  "reconnectDelay interval nextAttempt = interval * (3 / 2) ^ (nextAttempt - 1)"

text \<open>
  The \<open>onclose\<close> handler. It reads the \<open>connectionAttempts\<close> of the render that created
  \<open>connect\<close>, the argument \<open>attempts\<close>, and the \<open>wasClean\<close> flag of the close event.
\<close>

definition onclose :: "wsOptions \<Rightarrow> nat \<Rightarrow> bool \<Rightarrow> wsState \<Rightarrow> wsState" where
  "onclose opts attempts wasClean st =
     (let st1 = clearTimeouts (st\<lparr> readyState := CLOSED, isConnected := False \<rparr>)
      in if shouldReconnect opts \<and> attempts < reconnectAttempts opts \<and> \<not> wasClean
         then
           (let nextAttempt = attempts + 1;
                st2 = st1\<lparr> connectionAttempts := nextAttempt \<rparr>;
                (i, st3) = setTimeout Reconnect
                             (reconnectDelay (reconnectInterval opts) nextAttempt) st2
            in st3\<lparr> reconnectTimeoutRef := Some i \<rparr>)
         else st1)"

definition onerror :: "wsOptions \<Rightarrow> wsState \<Rightarrow> wsState" where
  "onerror opts st =
     (let st1 = st\<lparr> error := Some ''WebSocket connection error'' \<rparr>
      in if retryOnError opts \<and> shouldReconnect opts then st1\<lparr> readyState := CONNECTING \<rparr>
         else st1)"

text \<open>
  The \<open>onmessage\<close> handler: the new state and what \<open>onMessage\<close> is called with, if it is
  called. Reading \<open>.type\<close> of a parsed \<open>null\<close> throws inside the \<open>try\<close>, so the raw text is
  passed on as it is when \<open>JSON.parse\<close> throws.
\<close>

definition onmessage ::
  "(string \<Rightarrow> bool) \<Rightarrow> (string \<Rightarrow> json option) \<Rightarrow> string \<Rightarrow> wsState
     \<Rightarrow> wsState \<times> payload option" where
  "onmessage filter_opt parse message st =
     (if \<not> filter_opt message then (st, None)
      else
        (let st1 = st\<lparr> lastMessage := Some message \<rparr>
         in case parse message of
              None \<Rightarrow> (st1, Some (Raw message))
            | Some jsonMessage \<Rightarrow>
                (let st2 = st1\<lparr> lastJsonMessage := Some jsonMessage \<rparr>
                 in if jsonMessage = JNull then (st2, Some (Raw message))
                    else if typeField jsonMessage = Some (JStr ''pong'') then (st2, None)
                    else (st2, Some (Parsed jsonMessage)))))"

subsection \<open>disconnect, sendMessage, subscribe\<close>

definition disconnect :: "wsState \<Rightarrow> wsState" where
  "disconnect st =
     (let st1 = clearTimeouts st;
          st2 = (case webSocketRef st1 of
                   Some sock \<Rightarrow>
                     st1\<lparr> webSocketRef :=
                            Some (socket_close (CloseWith 1000 ''Manual disconnect'') sock) \<rparr>
                 | None \<Rightarrow> st1)
      in st2\<lparr> readyState := CLOSED, isConnected := False \<rparr>)"

definition messageStr :: "(json \<Rightarrow> string) \<Rightarrow> outbound \<Rightarrow> string" where
  "messageStr JSON_stringify message =
     (case message of Str s \<Rightarrow> s | Obj j \<Rightarrow> JSON_stringify j)"

definition sendMessage ::
  "(json \<Rightarrow> string) \<Rightarrow> outbound \<Rightarrow> wsState \<Rightarrow> bool \<times> wsState" where
  "sendMessage JSON_stringify message st =
     (case webSocketRef st of
        None \<Rightarrow> (False, st)
      | Some sock \<Rightarrow>
          if sockReadyState sock = OPEN
          then (True, st\<lparr> webSocketRef :=
                            Some (socket_send (messageStr JSON_stringify message) sock) \<rparr>)
          else (False, st\<lparr> messageQueueRef :=
                             messageQueueRef st @ [messageStr JSON_stringify message] \<rparr>))"

definition sendJsonMessage ::
  "(json \<Rightarrow> string) \<Rightarrow> json \<Rightarrow> wsState \<Rightarrow> bool \<times> wsState" where
  "sendJsonMessage JSON_stringify message st =
     sendMessage JSON_stringify (Str (JSON_stringify message)) st"

definition subscribe ::
  "(json \<Rightarrow> string) \<Rightarrow> nat \<Rightarrow> json \<Rightarrow> wsState \<Rightarrow> bool \<times> wsState" where
  "subscribe JSON_stringify now channels st =
     sendJsonMessage JSON_stringify (subscribeMessage now channels) st"

definition unsubscribe ::
  "(json \<Rightarrow> string) \<Rightarrow> nat \<Rightarrow> json \<Rightarrow> wsState \<Rightarrow> bool \<times> wsState" where
  "unsubscribe JSON_stringify now channels st =
     sendJsonMessage JSON_stringify (unsubscribeMessage now channels) st"

text \<open>\<open>reconnect\<close>: the forced reconnect; its timer is not kept in a ref.\<close>

definition reconnect :: "wsState \<Rightarrow> wsState" where
  "reconnect st = snd (setTimeout ForcedConnect 100 (disconnect (st\<lparr> connectionAttempts := 0 \<rparr>)))"

text \<open>
  The browser's side of the two events: it sets the \<open>readyState\<close> of the socket and then
  runs the handler.
\<close>

definition socketOpens :: "wsOptions \<Rightarrow> wsState \<Rightarrow> wsState" where
  "socketOpens opts st =
     onopen opts (st\<lparr> webSocketRef := map_option (\<lambda>sock. sock\<lparr> sockReadyState := OPEN \<rparr>)
                                          (webSocketRef st) \<rparr>)"

definition socketCloses :: "wsOptions \<Rightarrow> nat \<Rightarrow> bool \<Rightarrow> wsState \<Rightarrow> wsState" where
  "socketCloses opts attempts wasClean st =
     onclose opts attempts wasClean
       (st\<lparr> webSocketRef := map_option (\<lambda>sock. sock\<lparr> sockReadyState := CLOSED \<rparr>)
                               (webSocketRef st) \<rparr>)"

subsection \<open>The event loop\<close>

text \<open>
  A pending timer fires: it leaves the pending timers and its callback runs. The callback
  of the reconnect timer and of the forced reconnect is \<open>connect\<close>.
\<close>

definition timerFires ::
  "(json \<Rightarrow> string) \<Rightarrow> nat \<Rightarrow> wsOptions \<Rightarrow> bool \<Rightarrow> nat \<Rightarrow> wsState \<Rightarrow> wsState" where
  "timerFires JSON_stringify now opts constructed i st =
     (case find (\<lambda>t. timerId t = i) (timers st) of
        None \<Rightarrow> st
      | Some t \<Rightarrow>
          (let st' = st\<lparr> timers := filter (\<lambda>u. timerId u \<noteq> i) (timers st) \<rparr>
           in case action t of
                Reconnect \<Rightarrow> connect constructed st'
              | Heartbeat \<Rightarrow> heartbeatCallback JSON_stringify now opts st'
              | ForcedConnect \<Rightarrow> connect constructed st'))"

section \<open>hooks/useOrderBook.js\<close>

record stats =
  totalUpdates :: nat
  lastUpdateTime :: "nat option"
  averageLatency :: real
  exchanges_s :: "string list"

text \<open>
  The state and refs of the hook. \<open>subscriptions\<close> is the \<open>Set\<close> in insertion order;
  \<open>latencyRef\<close> is the array of latency samples.
\<close>

record obState =
  orderBooks :: "string \<rightharpoonup> orderBook"
  loading :: bool
  subscriptions :: "string list"
  lastUpdate :: "nat option"
  stats :: stats
  latencyRef :: "real list"

definition initialOrderBookState :: obState where
  "initialOrderBookState =
     \<lparr> orderBooks = Map.empty, loading = True, subscriptions = [], lastUpdate = None,
       stats = \<lparr> totalUpdates = 0, lastUpdateTime = None, averageLatency = 0,
                 exchanges_s = [] \<rparr>,
       latencyRef = [] \<rparr>"

text \<open>
  \<open>handleWebSocketMessage\<close>, the \<open>onMessage\<close> callback given to \<open>useWebSocket\<close>. Reading
  the payload into a symbol and a book in map form is the parameter \<open>readUpdate\<close>, which
  gives \<open>None\<close> for a message that is no order book update, has no symbol or makes the
  handler throw; what the handler then stores is as in the code.
\<close>

definition handleWebSocketMessage ::
  "(payload \<Rightarrow> (string \<times> orderBook) option) \<Rightarrow> nat \<Rightarrow> payload \<Rightarrow> obState \<Rightarrow> obState" where
  "handleWebSocketMessage readUpdate now message ob =
     (case readUpdate message of
        None \<Rightarrow> ob
      | Some (symbol, transformedOrderBook) \<Rightarrow>
          ob\<lparr> orderBooks := (orderBooks ob)(symbol \<mapsto> transformedOrderBook),
              lastUpdate := Some now \<rparr>)"

text \<open>
  A message event of the socket as the two hooks see it: \<open>useWebSocket\<close> handles it and
  calls \<open>handleWebSocketMessage\<close> with what it passes on.
\<close>

definition receiveMessage ::
  "(string \<Rightarrow> bool) \<Rightarrow> (string \<Rightarrow> json option) \<Rightarrow> (payload \<Rightarrow> (string \<times> orderBook) option)
     \<Rightarrow> nat \<Rightarrow> string \<Rightarrow> wsState \<times> obState \<Rightarrow> wsState \<times> obState" where
  "receiveMessage filter_opt parse readUpdate now message s =
     (let (ws', passed) = onmessage filter_opt parse message (fst s)
      in (ws', case passed of
                 None \<Rightarrow> snd s
               | Some m \<Rightarrow> handleWebSocketMessage readUpdate now m (snd s)))"

text \<open>
  The \<open>forEach\<close> of \<open>subscribeToSymbols\<close> over \<open>symbolList\<close>, on the new set and the
  connection; \<open>online\<close> is \<open>enableWebSocket && isConnected\<close>. The REST fetch that
  \<open>enablePolling\<close> starts is asynchronous and changes neither of the two.
\<close>

fun subscribeEach ::
  "(json \<Rightarrow> string) \<Rightarrow> nat \<Rightarrow> bool \<Rightarrow> string list \<Rightarrow> string list \<times> wsState
     \<Rightarrow> string list \<times> wsState" where
  "subscribeEach JSON_stringify now online [] s = s"
| "subscribeEach JSON_stringify now online (symbol # rest) (newSubscriptions, ws) =
     (if symbol \<notin> set newSubscriptions
      then subscribeEach JSON_stringify now online rest
             (newSubscriptions @ [symbol],
              if online
              then snd (subscribe JSON_stringify now (JStr (''orderbook.'' @ symbol)) ws)
              else ws)
      else subscribeEach JSON_stringify now online rest (newSubscriptions, ws))"

definition subscribeToSymbols ::
  "(json \<Rightarrow> string) \<Rightarrow> nat \<Rightarrow> bool \<Rightarrow> string list \<Rightarrow> wsState \<times> obState
     \<Rightarrow> wsState \<times> obState" where
  "subscribeToSymbols JSON_stringify now enableWebSocket symbolList s =
     (let (newSubscriptions, ws') =
            subscribeEach JSON_stringify now (enableWebSocket \<and> isConnected (fst s))
              symbolList (subscriptions (snd s), fst s)
      in (ws', (snd s)\<lparr> subscriptions := newSubscriptions \<rparr>))"

fun unsubscribeEach ::
  "(json \<Rightarrow> string) \<Rightarrow> nat \<Rightarrow> bool \<Rightarrow> string list
     \<Rightarrow> string list \<times> wsState \<times> (string \<rightharpoonup> orderBook)
     \<Rightarrow> string list \<times> wsState \<times> (string \<rightharpoonup> orderBook)" where
  "unsubscribeEach JSON_stringify now online [] s = s"
| "unsubscribeEach JSON_stringify now online (symbol # rest) (newSubscriptions, ws, books) =
     (if symbol \<in> set newSubscriptions
      then unsubscribeEach JSON_stringify now online rest
             (removeAll symbol newSubscriptions,
              if online
              then snd (unsubscribe JSON_stringify now (JStr (''orderbook.'' @ symbol)) ws)
              else ws,
              books(symbol := None))
      else unsubscribeEach JSON_stringify now online rest (newSubscriptions, ws, books))"

definition unsubscribeFromSymbols ::
  "(json \<Rightarrow> string) \<Rightarrow> nat \<Rightarrow> bool \<Rightarrow> string list \<Rightarrow> wsState \<times> obState
     \<Rightarrow> wsState \<times> obState" where
  "unsubscribeFromSymbols JSON_stringify now enableWebSocket symbolList s =
     (let (newSubscriptions, ws', books) =
            unsubscribeEach JSON_stringify now (enableWebSocket \<and> isConnected (fst s))
              symbolList (subscriptions (snd s), fst s, orderBooks (snd s))
      in (ws', (snd s)\<lparr> subscriptions := newSubscriptions, orderBooks := books \<rparr>))"

section \<open>Observations for the statements\<close>

text \<open>Sending a list of messages one after the other.\<close>

definition sendAll :: "(json \<Rightarrow> string) \<Rightarrow> outbound list \<Rightarrow> wsState \<Rightarrow> wsState" where
  "sendAll JSON_stringify messages st =
     fold (\<lambda>m s. snd (sendMessage JSON_stringify m s)) messages st"

text \<open>
  The frames handed to the current socket, and the frames that a step from \<open>st\<close> to
  \<open>st'\<close> has added to them or to the outbound queue.
\<close>

definition sentOf :: "wsState \<Rightarrow> string list" where
  "sentOf st = (case webSocketRef st of None \<Rightarrow> [] | Some sock \<Rightarrow> sent sock)"

definition emitted :: "wsState \<Rightarrow> wsState \<Rightarrow> string list" where
  "emitted st st' =
     drop (length (sentOf st)) (sentOf st')
     @ drop (length (messageQueueRef st)) (messageQueueRef st')"

text \<open>\<open>Object.keys\<close> of a JSON object.\<close>

definition keysOf :: "json \<Rightarrow> string list" where
  "keysOf j = (case j of JObj props \<Rightarrow> map fst props | _ \<Rightarrow> [])"

text \<open>A \<open>JSON.parse\<close> for the examples: the text read is a pong with \<open>requestTime\<close> 1000.\<close>

definition pongText :: "string \<Rightarrow> json option" where
  "pongText message = Some (JObj [(''type'', JStr ''pong''), (''requestTime'', JNum 1000)])"

section \<open>Properties\<close>

subsection \<open>Rounding\<close>

lemma rne_of_int [simp]: "rne (of_int k) = k"
  by (simp add: rne_def)

lemma rne_ge_floor: "\<lfloor>y\<rfloor> \<le> rne y"
  by (simp add: rne_def Let_def)

lemma rne_le_floor1: "rne y \<le> \<lfloor>y\<rfloor> + 1"
  by (simp add: rne_def Let_def)

lemma rne_error: "\<bar>of_int (rne y) - y\<bar> \<le> 1 / 2"
proof -
  have "of_int \<lfloor>y\<rfloor> \<le> y" "y < of_int \<lfloor>y\<rfloor> + 1" by linarith+
  then show ?thesis
    by (auto simp: rne_def Let_def abs_le_iff)
qed

lemma rne_mono: "y \<le> z \<Longrightarrow> rne y \<le> rne z"
proof -
  assume yz: "y \<le> z"
  then have fl: "\<lfloor>y\<rfloor> \<le> \<lfloor>z\<rfloor>" by (rule floor_mono)
  show ?thesis
  proof (cases "\<lfloor>y\<rfloor> = \<lfloor>z\<rfloor>")
    case True
    then show ?thesis using yz by (auto simp: rne_def Let_def)
  next
    case False
    then have "\<lfloor>y\<rfloor> + 1 \<le> \<lfloor>z\<rfloor>" using fl by simp
    then show ?thesis using rne_le_floor1 [of y] rne_ge_floor [of z] by linarith
  qed
qed

lemma rne_zero [simp]: "rne 0 = 0"
  using rne_of_int [of 0] by simp

lemma rne_nonneg: "0 \<le> y \<Longrightarrow> 0 \<le> rne y"
  using rne_mono [of 0 y] by simp

lemma rne_ge_int: "of_int k \<le> y \<Longrightarrow> k \<le> rne y"
  using rne_mono [of "of_int k" y] by simp

lemma rne_le_int: "y \<le> of_int k \<Longrightarrow> rne y \<le> k"
  using rne_mono [of y "of_int k"] by simp

subsection \<open>Powers of two\<close>

lemma two_powi_less_iff: "(2::real) powi m < 2 powi n \<longleftrightarrow> m < n"
proof
  assume l: "(2::real) powi m < 2 powi n"
  show "m < n"
  proof (rule ccontr)
    assume "\<not> m < n"
    then have "n \<le> m" by simp
    then have "(2::real) powi n \<le> 2 powi m" by (intro power_int_increasing) simp_all
    then show False using l by simp
  qed
next
  assume "m < n"
  then show "(2::real) powi m < 2 powi n" by (intro power_int_strict_increasing) simp_all
qed

lemma two_powi_le_iff: "(2::real) powi m \<le> 2 powi n \<longleftrightarrow> m \<le> n"
  using two_powi_less_iff [of n m] by (auto simp: not_less [symmetric])

lemma two_powi_pos [simp]: "0 < (2::real) powi n"
  by simp

lemma two_powi_int: "0 \<le> n \<Longrightarrow> (2::real) powi n = of_int (2 ^ nat n)"
  by (simp add: power_int_def)

subsection \<open>expo\<close>

lemma expo_up_bounds: "1 \<le> x \<Longrightarrow> 0 \<le> expo_up x \<and> 2 powi expo_up x \<le> x \<and> x < 2 powi (expo_up x + 1)"
proof (induction x rule: expo_up.induct)
  case (1 x)
  show ?case
  proof (cases "x < 2")
    case True
    then show ?thesis using "1.prems" by (subst (1 2 3) expo_up.simps) simp
  next
    case False
    then have h: "1 \<le> x / 2" by simp
    note ih = "1.IH" [OF False h]
    have e: "expo_up x = expo_up (x / 2) + 1"
      using False by (subst expo_up.simps) simp
    have "2 powi (expo_up (x / 2) + 1) = 2 powi expo_up (x / 2) * (2::real)"
      by (simp add: power_int_add)
    moreover have "2 powi (expo_up (x / 2) + 1 + 1) = 2 powi (expo_up (x / 2) + 1) * (2::real)"
      by (simp add: power_int_add)
    ultimately show ?thesis using ih e by auto
  qed
qed

lemma expo_dn_bounds: "0 < x \<Longrightarrow> x < 1 \<Longrightarrow> 2 powi expo_dn x \<le> x \<and> x < 2 powi (expo_dn x + 1)"
proof (induction x rule: expo_dn.induct)
  case (1 x)
  have e: "expo_dn x = expo_dn (2 * x) - 1"
    using "1.prems" by (subst expo_dn.simps) simp
  have c: "\<not> (1 \<le> x \<or> x \<le> 0)" using "1.prems" by simp
  show ?case
  proof (cases "2 * x < 1")
    case True
    have ih: "2 powi expo_dn (2 * x) \<le> 2 * x \<and> 2 * x < 2 powi (expo_dn (2 * x) + 1)"
      using "1.IH" [OF c] True "1.prems" by simp
    have "2 powi (expo_dn (2 * x)) = 2 powi (expo_dn (2 * x) - 1) * (2::real)"
      by (simp add: power_int_minus_mult)
    moreover have "2 powi (expo_dn (2 * x) + 1) = 2 powi (expo_dn (2 * x)) * (2::real)"
      by (simp add: power_int_add)
    ultimately show ?thesis using ih e by auto
  next
    case False
    then have "expo_dn (2 * x) = 0" by (subst expo_dn.simps) simp
    then have "expo_dn x = - 1" using e by simp
    then show ?thesis using False "1.prems" by (simp add: power_int_minus)
  qed
qed

lemma expo_bounds: "0 < x \<Longrightarrow> 2 powi expo x \<le> x \<and> x < 2 powi (expo x + 1)"
  using expo_up_bounds [of x] expo_dn_bounds [of x]
  by (cases "1 \<le> x") (auto simp: expo_def)

lemma expo_unique:
  assumes "2 powi e \<le> x" and "x < 2 powi (e + 1)"
  shows "expo x = e"
proof -
  have x: "0 < x" using assms(1) zero_less_power_int [of "2::real" e] by linarith
  note b = expo_bounds [OF x]
  have "2 powi e < (2::real) powi (expo x + 1)" using assms(1) b by linarith
  then have "e < expo x + 1" by (simp add: two_powi_less_iff)
  moreover have "2 powi expo x < (2::real) powi (e + 1)" using assms(2) b by linarith
  then have "expo x < e + 1" by (simp add: two_powi_less_iff)
  ultimately show ?thesis by simp
qed

subsection \<open>Rounding a positive number\<close>

lemma round_pos_rp: "round_pos x = (if 2 powi emax \<le> rp x then PosInf else Fin (rp x))"
  by (simp add: round_pos_def rp_def Let_def)

lemma quantum_ge: "emin \<le> quantum x" "expo x - 52 \<le> quantum x"
  by (simp_all add: quantum_def)

lemma quantum_cases: "quantum x = expo x - 52 \<or> quantum x = emin"
  by (auto simp: quantum_def max_def)

lemma expo_mono:
  assumes "0 < x" and "x \<le> y"
  shows "expo x \<le> expo y"
proof -
  have y: "0 < y" using assms by simp
  have "2 powi expo x \<le> x" using expo_bounds [OF assms(1)] by simp
  also have "x \<le> y" by fact
  also have "y < 2 powi (expo y + 1)" using expo_bounds [OF y] by simp
  finally have "expo x < expo y + 1" by (simp add: two_powi_less_iff)
  then show ?thesis by simp
qed

lemma quantum_mono: "0 < x \<Longrightarrow> x \<le> y \<Longrightarrow> quantum x \<le> quantum y"
  using expo_mono [of x y] by (simp add: quantum_def)

lemma rp_nonneg: "0 < x \<Longrightarrow> 0 \<le> rp x"
  unfolding rp_def by (intro mult_nonneg_nonneg) (simp_all add: rne_nonneg)

lemma rp_ge_powi:
  assumes "0 < x" and "2 powi k \<le> x" and "quantum x \<le> k"
  shows "2 powi k \<le> rp x"
proof -
  let ?p = "quantum x"
  have "(2::real) powi k / 2 powi ?p = 2 powi (k - ?p)"
    by (simp add: power_int_diff)
  also have "\<dots> = of_int (2 ^ nat (k - ?p))"
    using assms(3) by (intro two_powi_int) simp
  finally have eq: "(2::real) powi k / 2 powi ?p = of_int (2 ^ nat (k - ?p))" .
  have "(2::real) powi k / 2 powi ?p \<le> x / 2 powi ?p"
    using assms(2) by (simp add: divide_right_mono)
  then have "2 ^ nat (k - ?p) \<le> rne (x / 2 powi ?p)"
    unfolding eq by (rule rne_ge_int)
  then have "(of_int (2 ^ nat (k - ?p)) :: real) \<le> of_int (rne (x / 2 powi ?p))"
    by (simp only: of_int_le_iff)
  then have "(2::real) powi k / 2 powi ?p * 2 powi ?p \<le> rp x"
    unfolding rp_def eq by (intro mult_right_mono) simp_all
  then show ?thesis by simp
qed

lemma rp_le_powi:
  assumes "0 < x" and "x \<le> 2 powi k" and "quantum x \<le> k"
  shows "rp x \<le> 2 powi k"
proof -
  let ?p = "quantum x"
  have "(2::real) powi k / 2 powi ?p = 2 powi (k - ?p)"
    by (simp add: power_int_diff)
  also have "\<dots> = of_int (2 ^ nat (k - ?p))"
    using assms(3) by (intro two_powi_int) simp
  finally have eq: "(2::real) powi k / 2 powi ?p = of_int (2 ^ nat (k - ?p))" .
  have "x / 2 powi ?p \<le> (2::real) powi k / 2 powi ?p"
    using assms(2) by (simp add: divide_right_mono)
  then have "rne (x / 2 powi ?p) \<le> 2 ^ nat (k - ?p)"
    unfolding eq by (rule rne_le_int)
  then have "(of_int (rne (x / 2 powi ?p)) :: real) \<le> of_int (2 ^ nat (k - ?p))"
    by (simp only: of_int_le_iff)
  then have "rp x \<le> (2::real) powi k / 2 powi ?p * 2 powi ?p"
    unfolding rp_def eq by (intro mult_right_mono) simp_all
  then show ?thesis by simp
qed

lemma rp_ge_expo:
  assumes "0 < x" and "emin \<le> expo x"
  shows "2 powi expo x \<le> rp x"
proof -
  have "quantum x \<le> expo x" using assms(2) by (simp add: quantum_def)
  then show ?thesis using expo_bounds [OF assms(1)] assms(1) by (intro rp_ge_powi) simp_all
qed

lemma rp_mono:
  assumes "0 < x" and "x \<le> y"
  shows "rp x \<le> rp y"
proof (cases "quantum x = quantum y")
  case True
  have "x / 2 powi quantum y \<le> y / 2 powi quantum y"
    using assms(2) by (simp add: divide_right_mono)
  then have "rne (x / 2 powi quantum y) \<le> rne (y / 2 powi quantum y)" by (rule rne_mono)
  then have "(of_int (rne (x / 2 powi quantum y)) :: real) \<le> of_int (rne (y / 2 powi quantum y))"
    by (simp only: of_int_le_iff)
  then show ?thesis unfolding rp_def True by (intro mult_right_mono) simp_all
next
  case False
  have y: "0 < y" using assms by simp
  have lt: "quantum x < quantum y" using quantum_mono [OF assms] False by simp
  then have qy: "quantum y = expo y - 52" using quantum_cases [of y] quantum_ge(1) [of x] by auto
  then have ey: "emin \<le> expo y" using quantum_ge(1) [of y] by simp
  have ex: "expo x < expo y"
  proof (rule ccontr)
    assume "\<not> expo x < expo y"
    then have "expo x = expo y" using expo_mono [OF assms] by simp
    then show False using lt by (simp add: quantum_def)
  qed
  have "x < 2 powi (expo x + 1)" using expo_bounds [OF assms(1)] by simp
  also have "(2::real) powi (expo x + 1) \<le> 2 powi expo y"
    using ex by (simp add: two_powi_le_iff)
  finally have xle: "x \<le> 2 powi expo y" by simp
  have "quantum x \<le> expo y" using lt qy by simp
  then have "rp x \<le> 2 powi expo y" using assms(1) xle by (intro rp_le_powi) simp_all
  also have "\<dots> \<le> rp y" using y ey by (rule rp_ge_expo)
  finally show ?thesis .
qed

lemma rp_error:
  assumes "0 < x"
  shows "\<bar>rp x - x\<bar> \<le> 2 powi quantum x / 2"
proof -
  let ?q = "(2::real) powi quantum x"
  have "rp x - x = (of_int (rne (x / ?q)) - x / ?q) * ?q"
    by (simp add: rp_def algebra_simps)
  then have "\<bar>rp x - x\<bar> = \<bar>of_int (rne (x / ?q)) - x / ?q\<bar> * ?q"
    by (simp add: abs_mult)
  also have "\<dots> \<le> 1 / 2 * ?q"
    by (intro mult_right_mono rne_error) simp
  finally show ?thesis by simp
qed

lemma rp_exact:
  assumes "0 < m" and "m < 2 ^ 53" and "emin \<le> q"
  shows "rp (of_int m * 2 powi q) = of_int m * 2 powi q"
proof -
  let ?x = "of_int m * (2::real) powi q"
  have x: "0 < ?x" using assms(1) by simp
  have "(of_int m :: real) < of_int (2 ^ 53)" using assms(2) by (simp only: of_int_less_iff)
  then have "?x < 2 ^ 53 * 2 powi q" by simp
  also have "\<dots> = 2 powi (53 + q)" by (simp add: power_int_add)
  finally have "2 powi expo ?x < (2::real) powi (53 + q)"
    using expo_bounds [OF x] by linarith
  then have "expo ?x < 53 + q" by (simp add: two_powi_less_iff)
  then have p: "quantum ?x \<le> q" using assms(3) by (simp add: quantum_def)
  have "?x / 2 powi quantum ?x = of_int m * 2 powi (q - quantum ?x)"
    by (simp add: power_int_diff)
  also have "\<dots> = of_int (m * 2 ^ nat (q - quantum ?x))"
    using p by (simp add: two_powi_int)
  finally have "rne (?x / 2 powi quantum ?x) = m * 2 ^ nat (q - quantum ?x)"
    by (simp only: rne_of_int)
  then have "rp ?x = of_int (m * 2 ^ nat (q - quantum ?x)) * 2 powi quantum ?x"
    by (simp add: rp_def)
  also have "\<dots> = of_int m * (2 powi (q - quantum ?x) * 2 powi quantum ?x)"
    using p by (simp add: two_powi_int)
  also have "\<dots> = ?x"
    by (simp flip: power_int_add)
  finally show ?thesis .
qed

lemma rp_grid: "\<exists>k::int. rp x = of_int k * 2 powi emin"
proof -
  let ?p = "quantum x"
  have "(2::real) powi (?p - emin) * 2 powi emin = 2 powi ?p"
    by (simp flip: power_int_add)
  moreover have "(2::real) powi (?p - emin) = of_int (2 ^ nat (?p - emin))"
    using quantum_ge(1) [of x] by (intro two_powi_int) simp
  ultimately have "rp x = of_int (rne (x / 2 powi ?p) * 2 ^ nat (?p - emin)) * 2 powi emin"
    by (simp add: rp_def)
  then show ?thesis by blast
qed

subsection \<open>round64\<close>

text \<open>The numbers that are doubles: the fixed points of the rounding.\<close>

lemma round64_zero [simp]: "round64 0 = Fin 0"
  by (simp add: round64_def)

lemma round64_not_NaN [simp]: "round64 x \<noteq> NaN"
  by (simp add: round64_def round_pos_rp)

lemma round64_minus: "round64 (- x) = jneg (round64 x)"
  by (cases "round_pos x"; cases "round_pos (- x)") (auto simp: round64_def)

lemma round64_pos: "0 < x \<Longrightarrow> round64 x = (if 2 powi emax \<le> rp x then PosInf else Fin (rp x))"
  by (simp add: round64_def round_pos_rp)

lemma round64_nonneg: "0 \<le> x \<Longrightarrow> nonneg (round64 x)"
  using rp_nonneg [of x] by (cases "x = 0") (auto simp: round64_pos nonneg_def)

lemma round64_positive:
  assumes "2 powi emin \<le> x"
  shows "jgt (round64 x) (Fin 0)"
proof -
  have x: "0 < x" using assms two_powi_pos [of emin] by linarith
  have "2 powi emin < (2::real) powi (expo x + 1)" using assms expo_bounds [OF x] by linarith
  then have "emin \<le> expo x" by (simp add: two_powi_less_iff)
  then have "2 powi expo x \<le> rp x" using x by (intro rp_ge_expo)
  then have "0 < rp x" using two_powi_pos [of "expo x"] by linarith
  then show ?thesis using x by (simp add: round64_pos jgt_def)
qed

lemma round64_mono_pos:
  assumes "0 < x" and "x \<le> y"
  shows "\<not> jlt (round64 y) (round64 x)"
proof -
  have y: "0 < y" using assms by simp
  show ?thesis using rp_mono [OF assms] by (simp add: round64_pos assms(1) y)
qed

lemma round64_mono:
  assumes "x \<le> y"
  shows "\<not> jlt (round64 y) (round64 x)"
proof -
  consider "0 < x" | "x \<le> 0" "0 \<le> y" | "y < 0" by linarith
  then show ?thesis
  proof cases
    case 1
    then show ?thesis using assms by (rule round64_mono_pos)
  next
    case 2
    have "nonneg (round64 y)" using 2 by (intro round64_nonneg)
    moreover have "nonneg (round64 (- x))" using 2 by (intro round64_nonneg) simp
    ultimately show ?thesis
      by (cases "round64 x") (auto simp: round64_minus nonneg_def)
  next
    case 3
    then have "0 < - y" "- y \<le> - x" using assms by simp_all
    then have "\<not> jlt (round64 (- x)) (round64 (- y))" by (rule round64_mono_pos)
    then show ?thesis
      by (cases "round64 x"; cases "round64 y") (auto simp: round64_minus)
  qed
qed

lemma round64_exact_pos:
  assumes "0 < m" and "m < 2 ^ 53" and "emin \<le> q" and "q + 53 \<le> emax"
  shows "round64 (of_int m * 2 powi q) = Fin (of_int m * 2 powi q)"
proof -
  let ?x = "of_int m * (2::real) powi q"
  have x: "0 < ?x" using assms(1) by simp
  have "(of_int m :: real) < of_int (2 ^ 53)" using assms(2) by (simp only: of_int_less_iff)
  then have "?x < 2 ^ 53 * 2 powi q" by simp
  also have "\<dots> = 2 powi (q + 53)" by (simp add: power_int_add)
  also have "\<dots> \<le> 2 powi emax" using assms(4) by (simp add: two_powi_le_iff)
  finally have "?x < 2 powi emax" .
  then show ?thesis using x rp_exact [OF assms(1-3)] by (simp add: round64_pos)
qed

lemma double_dyadic:
  assumes "\<bar>m\<bar> < 2 ^ 53" and "emin \<le> q" and "q + 53 \<le> emax"
  shows "double (of_int m * 2 powi q)"
proof -
  consider "m = 0" | "0 < m" | "m < 0" by linarith
  then show ?thesis
  proof cases
    case 1
    then show ?thesis by (simp add: double_def)
  next
    case 2
    then show ?thesis using assms round64_exact_pos [of m q] by (simp add: double_def)
  next
    case 3
    then have "round64 (of_int (- m) * 2 powi q) = Fin (of_int (- m) * 2 powi q)"
      using assms by (intro round64_exact_pos) simp_all
    then have "jneg (round64 (of_int m * 2 powi q)) = Fin (- (of_int m * 2 powi q))"
      using round64_minus [of "of_int m * 2 powi q"] by simp
    then show ?thesis
      by (cases "round64 (of_int m * 2 powi q)") (simp_all add: double_def)
  qed
qed

lemma double_int:
  assumes "\<bar>n\<bar> \<le> 2 ^ 53"
  shows "double (of_int n)"
proof (cases "\<bar>n\<bar> = 2 ^ 53")
  case True
  then have "n = 2 ^ 53 \<or> n = - (2 ^ 53)" by linarith
  then have "(of_int n :: real) = of_int (2 ^ 52) * 2 powi 1 \<or>
             (of_int n :: real) = of_int (- (2 ^ 52)) * 2 powi 1"
    by auto
  moreover have "double (of_int (2 ^ 52) * 2 powi 1)"
    by (rule double_dyadic) (simp_all add: emin_def emax_def)
  moreover have "double (of_int (- (2 ^ 52)) * 2 powi 1)"
    by (rule double_dyadic) (simp_all add: emin_def emax_def)
  ultimately show ?thesis by metis
next
  case False
  then have "\<bar>n\<bar> < 2 ^ 53" using assms by simp
  then have "double (of_int n * 2 powi 0)"
    by (rule double_dyadic) (simp_all add: emin_def emax_def)
  then show ?thesis by simp
qed

lemma double_grid:
  assumes "double x"
  shows "\<exists>k::int. x = of_int k * 2 powi emin"
proof -
  consider "x = 0" | "0 < x" | "x < 0" by linarith
  then show ?thesis
  proof cases
    case 1
    then have "x = of_int 0 * 2 powi emin" by simp
    then show ?thesis by blast
  next
    case 2
    then have "rp x = x" using assms by (simp add: double_def round64_pos split: if_splits)
    then show ?thesis using rp_grid [of x] by simp
  next
    case 3
    then have "round64 x = jneg (round_pos (- x))" by (simp add: round64_def)
    then have "round_pos (- x) = Fin (- x)"
      using assms by (cases "round_pos (- x)") (simp_all add: double_def)
    then have "rp (- x) = - x" by (simp add: round_pos_rp split: if_splits)
    then obtain k :: int where "- x = of_int k * 2 powi emin" using rp_grid [of "- x"] by auto
    then have "x = of_int (- k) * 2 powi emin" by simp
    then show ?thesis by blast
  qed
qed

text \<open>The difference of two distinct doubles does not round to zero.\<close>

lemma round64_difference:
  assumes "double a" and "double b" and "a < b"
  shows "jgt (round64 (b - a)) (Fin 0)"
proof -
  obtain k l :: int where a: "a = of_int k * 2 powi emin" and b: "b = of_int l * 2 powi emin"
    using double_grid [OF assms(1)] double_grid [OF assms(2)] by blast
  have "of_int k * (2::real) powi emin < of_int l * 2 powi emin" using assms(3) a b by simp
  then have "(of_int k :: real) < of_int l" by (simp add: mult_less_cancel_right)
  then have "k + 1 \<le> l" by simp
  then have "(of_int (k + 1) :: real) \<le> of_int l" by (simp only: of_int_le_iff)
  then have "(of_int l - of_int k :: real) \<ge> 1" by simp
  then have "1 * (2::real) powi emin \<le> (of_int l - of_int k) * 2 powi emin"
    by (intro mult_right_mono) simp_all
  then have "2 powi emin \<le> b - a" by (simp add: a b algebra_simps)
  then show ?thesis by (rule round64_positive)
qed

text \<open>Rounding a number below \<open>2^k\<close> that is not subnormal there moves it by at most \<open>2^(k - 54)\<close>.\<close>

lemma round64_error:
  assumes "0 < x" and "x < 2 powi k" and "emin + 53 \<le> k" and "k < emax"
  shows "\<exists>r. round64 x = Fin r \<and> \<bar>r - x\<bar> \<le> 2 powi (k - 54)"
proof -
  have "2 powi expo x < (2::real) powi k" using expo_bounds [OF assms(1)] assms(2) by linarith
  then have e: "expo x < k" by (simp add: two_powi_less_iff)
  then have q: "quantum x \<le> k - 53" using assms(3) by (simp add: quantum_def)
  have "rp x \<le> 2 powi k" using assms(1,2) q by (intro rp_le_powi) simp_all
  also have "(2::real) powi k < 2 powi emax" using assms(4) by (simp add: two_powi_less_iff)
  finally have fin: "round64 x = Fin (rp x)" using assms(1) by (simp add: round64_pos)
  have "\<bar>rp x - x\<bar> \<le> 2 powi quantum x / 2" using assms(1) by (rule rp_error)
  also have "\<dots> \<le> 2 powi (k - 53) / 2" using q by (simp add: two_powi_le_iff)
  also have "\<dots> = 2 powi (k - 54)"
    using power_int_add [of "2::real" "k - 54" 1] by simp
  finally show ?thesis using fin by simp
qed

text \<open>Evaluation in the normal range.\<close>

lemma round64_normal:
  assumes "2 powi e \<le> x" and "x < 2 powi (e + 1)" and "emin + 52 \<le> e" and "e + 1 < emax"
  shows "round64 x = Fin (of_int (rne (x / 2 powi (e - 52))) * 2 powi (e - 52))"
proof -
  have x: "0 < x" using assms(1) two_powi_pos [of e] by linarith
  have e: "expo x = e" using assms(1,2) by (rule expo_unique)
  then have q: "quantum x = e - 52" using assms(3) by (simp add: quantum_def)
  have "rp x \<le> 2 powi (e + 1)" using x assms(2) q by (intro rp_le_powi) simp_all
  also have "(2::real) powi (e + 1) < 2 powi emax" using assms(4) by (simp add: two_powi_less_iff)
  finally show ?thesis using x q by (simp add: round64_pos rp_def)
qed

subsection \<open>Doubles\<close>

lemma rne_quantum_le:
  assumes "0 < x"
  shows "rne (x / 2 powi quantum x) \<le> 2 ^ 53"
proof -
  have b: "x < 2 powi (expo x + 1)" using expo_bounds [OF assms] by simp
  have q: "expo x - 52 \<le> quantum x" by (rule quantum_ge)
  have "x / 2 powi quantum x < 2 powi (expo x + 1) / 2 powi quantum x"
    using b by (simp add: divide_strict_right_mono)
  also have "\<dots> = 2 powi (expo x + 1 - quantum x)"
    by (simp add: power_int_diff)
  also have "\<dots> \<le> 2 powi 53"
    by (simp only: two_powi_le_iff) (use q in simp)
  also have "(2::real) powi 53 = of_int (2 ^ 53)" by (simp add: two_powi_int)
  finally have "x / 2 powi quantum x \<le> of_int (2 ^ 53)" by simp
  then show ?thesis by (rule rne_le_int)
qed

lemma double_zero [simp]: "double 0"
  by (simp add: double_def)

lemma double_minus: "double x \<Longrightarrow> double (- x)"
  by (simp add: double_def round64_minus)

lemma round64_idem_pos:
  assumes "0 < x" and "round64 x = Fin y"
  shows "double y"
proof -
  let ?q = "quantum x"
  let ?n = "rne (x / 2 powi ?q)"
  have y: "y = rp x" and lt: "rp x < 2 powi emax"
    using assms by (auto simp: round64_pos split: if_splits)
  have rp: "rp x = of_int ?n * 2 powi ?q" by (simp add: rp_def)
  have n0: "0 \<le> ?n" using assms by (intro rne_nonneg) simp
  have n53: "?n \<le> 2 ^ 53" using assms(1) by (rule rne_quantum_le)
  have qmin: "emin \<le> ?q" by (rule quantum_ge)
  consider "?n = 0" | "0 < ?n" "?n < 2 ^ 53" | "?n = 2 ^ 53" using n0 n53 by linarith
  then show ?thesis
  proof cases
    case 1
    then show ?thesis by (simp add: y rp)
  next
    case 2
    have "?q + 53 \<le> emax"
    proof (cases "?q = emin")
      case True
      then show ?thesis by (simp add: emin_def emax_def)
    next
      case False
      then have q: "?q = expo x - 52" using quantum_cases [of x] by simp
      then have "emin \<le> expo x" using qmin by simp
      then have "2 powi expo x \<le> rp x" using assms(1) by (intro rp_ge_expo)
      then have "(2::real) powi expo x < 2 powi emax" using lt by simp
      then have "expo x < emax" by (simp add: two_powi_less_iff)
      then show ?thesis using q by simp
    qed
    then have "round64 (of_int ?n * 2 powi ?q) = Fin (of_int ?n * 2 powi ?q)"
      using 2 qmin by (intro round64_exact_pos)
    then show ?thesis by (simp add: double_def y rp)
  next
    case 3
    have "rp x = 2 powi 53 * 2 powi ?q" using 3 by (simp add: rp two_powi_int)
    also have "\<dots> = 2 powi (?q + 53)" by (simp add: power_int_add)
    finally have v: "rp x = 2 powi (?q + 53)" .
    then have "?q + 53 < emax" using lt by (simp add: two_powi_less_iff)
    then have le: "(?q + 1) + 53 \<le> emax" by simp
    have "(2::real) powi (52 + (?q + 1)) = 2 powi 52 * 2 powi (?q + 1)"
      by (rule power_int_add) simp
    moreover have "52 + (?q + 1) = ?q + 53" by simp
    ultimately have "(2::real) powi (?q + 53) = 2 powi 52 * 2 powi (?q + 1)"
      by (simp only:)
    also have "(2::real) powi 52 = of_int (2 ^ 52)" by (simp add: two_powi_int)
    finally have "rp x = of_int (2 ^ 52) * 2 powi (?q + 1)" by (simp only: v)
    moreover have "round64 (of_int (2 ^ 52) * 2 powi (?q + 1)) = Fin (of_int (2 ^ 52) * 2 powi (?q + 1))"
      using qmin le by (intro round64_exact_pos) simp_all
    ultimately show ?thesis by (simp add: double_def y)
  qed
qed

lemma round64_idem:
  assumes "round64 x = Fin y"
  shows "double y"
proof -
  consider "x = 0" | "0 < x" | "x < 0" by linarith
  then show ?thesis
  proof cases
    case 1
    then show ?thesis using assms by simp
  next
    case 2
    then show ?thesis using assms by (rule round64_idem_pos)
  next
    case 3
    then have "jneg (round64 (- x)) = Fin y" using assms round64_minus [of "- x"] by simp
    then have "round64 (- x) = Fin (- y)" by (cases "round64 (- x)") simp_all
    then have "double (- y)" using 3 by (intro round64_idem_pos [of "- x"]) simp_all
    then show ?thesis using double_minus [of "- y"] by simp
  qed
qed

subsection \<open>Numbers\<close>

lemma jgt_0_iff: "jgt x (Fin 0) \<longleftrightarrow> x = PosInf \<or> (\<exists>q. x = Fin q \<and> 0 < q)"
  by (cases x) (auto simp: jgt_def)

lemma jdouble_simps [simp]:
  "jdouble (Fin r) = double r" "jdouble PosInf" "jdouble NegInf" "jdouble NaN"
  by (simp_all add: jdouble_def)

lemma jdouble_round64 [simp]: "jdouble (round64 x)"
  by (cases "round64 x") (simp_all add: round64_idem)

lemma jdouble_jadd [simp]: "jdouble (jadd a b)"
  by (cases a; cases b) simp_all

lemma jdouble_jsub [simp]: "jdouble (jsub a b)"
  by (simp add: jsub_def)

lemma round64_double: "double x \<Longrightarrow> round64 x = Fin x"
  by (simp add: double_def)

lemma round64_of_int: "\<bar>n\<bar> \<le> 2 ^ 53 \<Longrightarrow> round64 (of_int n) = Fin (of_int n)"
  using double_int [of n] by (simp add: double_def)

lemma round64_numeral:
  "(numeral k :: int) \<le> 2 ^ 53 \<Longrightarrow> round64 (numeral k) = Fin (numeral k)"
  using round64_of_int [of "numeral k"] by simp

lemma round64_one [simp]: "round64 1 = Fin 1"
  using round64_of_int [of 1] by simp

lemma round64_half:
  "(numeral k :: int) < 2 ^ 53 \<Longrightarrow> round64 (numeral k / 2) = Fin (numeral k / 2)"
  using double_dyadic [of "numeral k" "- 1"]
  by (simp add: double_def emin_def emax_def power_int_minus)

lemma double_numeral: "(numeral k :: int) \<le> 2 ^ 53 \<Longrightarrow> double (numeral k)"
  using double_int [of "numeral k"] by simp

lemma double_one [simp]: "double 1"
  using double_int [of 1] by simp

lemma jsub_Fin: "jsub (Fin a) (Fin b) = round64 (a - b)"
  by (simp add: jsub_def)

lemma round64_nonpos: "x \<le> 0 \<Longrightarrow> \<not> jgt (round64 x) (Fin 0)"
proof -
  assume "x \<le> 0"
  then have "nonneg (round64 (- x))" by (intro round64_nonneg) simp
  then have "nonneg (jneg (round64 x))" by (simp add: round64_minus)
  then show ?thesis
    by (cases "round64 x") (auto simp: nonneg_def jgt_def)
qed

text \<open>Sortedness by a key that is positive on the whole list.\<close>

lemma jgt_diff_pos:
  assumes "jgt a (Fin 0)" and "jgt b (Fin 0)" and "jdouble a" and "jdouble b"
  shows "jgt (jsub a b) (Fin 0) \<longleftrightarrow> jlt b a"
proof (cases a)
  case (Fin x)
  show ?thesis
  proof (cases b)
    case b: (Fin y)
    show ?thesis
    proof (cases "y < x")
      case True
      then have "jgt (round64 (x - y)) (Fin 0)"
        using assms Fin b by (intro round64_difference) simp_all
      then show ?thesis using True Fin b by (simp add: jsub_Fin)
    next
      case False
      then have "\<not> jgt (round64 (x - y)) (Fin 0)" by (intro round64_nonpos) simp
      then show ?thesis using False Fin b by (simp add: jsub_Fin)
    qed
  qed (use assms Fin in \<open>auto simp: jsub_def jgt_def\<close>)
qed (use assms in \<open>cases b; auto simp: jsub_def jgt_def\<close>)+

lemma jlt_trans_neg:
  assumes "jgt a (Fin 0)" and "jgt b (Fin 0)" and "jgt c (Fin 0)"
    and "\<not> jlt b a" and "\<not> jlt c b"
  shows "\<not> jlt c a"
  using assms by (auto simp: jgt_0_iff)

lemma jlt_asym: "jlt a b \<Longrightarrow> \<not> jlt b a"
  by (cases a; cases b) auto

subsection \<open>Sorting\<close>

lemma set_sort_insert: "set (sort_insert cmp x ys) = insert x (set ys)"
  by (induction ys) auto

lemma set_js_sort: "set (js_sort cmp xs) = set xs"
  by (induction xs) (simp_all add: js_sort_def set_sort_insert)

lemma length_sort_insert: "length (sort_insert cmp x ys) = Suc (length ys)"
  by (induction ys) auto

lemma length_js_sort: "length (js_sort cmp xs) = length xs"
  by (induction xs) (simp_all add: js_sort_def length_sort_insert)

lemma mset_sort_insert: "mset (sort_insert cmp x ys) = add_mset x (mset ys)"
  by (induction ys) auto

lemma mset_js_sort: "mset (js_sort cmp xs) = mset xs"
  by (induction xs) (simp_all add: js_sort_def mset_sort_insert)

lemma js_sort_Nil [simp]: "js_sort cmp [] = []"
  by (simp add: js_sort_def)

lemma sorted_sort_insert_asc:
  assumes "sorted_wrt (\<lambda>a b. \<not> jlt (k b) (k a)) ys"
    and "\<forall>y\<in>set ys. jgt (k y) (Fin 0) \<and> jdouble (k y)"
    and "jgt (k x) (Fin 0)" and "jdouble (k x)"
  shows "sorted_wrt (\<lambda>a b. \<not> jlt (k b) (k a)) (sort_insert (\<lambda>a b. jsub (k a) (k b)) x ys)"
  using assms
proof (induction ys)
  case Nil
  show ?case by simp
next
  case (Cons y ys)
  have d: "jgt (jsub (k x) (k y)) (Fin 0) \<longleftrightarrow> jlt (k y) (k x)"
    using Cons.prems by (intro jgt_diff_pos) simp_all
  show ?case
  proof (cases "jlt (k y) (k x)")
    case True
    then have "\<not> jlt (k x) (k y)" by (rule jlt_asym)
    then show ?thesis
      using True Cons d by (auto simp: set_sort_insert)
  next
    case False
    have "\<forall>z\<in>set ys. \<not> jlt (k z) (k x)"
    proof
      fix z assume z: "z \<in> set ys"
      then have "\<not> jlt (k z) (k y)" using Cons.prems(1) by simp
      then show "\<not> jlt (k z) (k x)"
        using jlt_trans_neg [of "k x" "k y" "k z"] False Cons.prems z by simp
    qed
    then show ?thesis
      using False Cons.prems d by simp
  qed
qed

lemma sorted_sort_insert_desc:
  assumes "sorted_wrt (\<lambda>a b. \<not> jlt (k a) (k b)) ys"
    and "\<forall>y\<in>set ys. jgt (k y) (Fin 0) \<and> jdouble (k y)"
    and "jgt (k x) (Fin 0)" and "jdouble (k x)"
  shows "sorted_wrt (\<lambda>a b. \<not> jlt (k a) (k b)) (sort_insert (\<lambda>a b. jsub (k b) (k a)) x ys)"
  using assms
proof (induction ys)
  case Nil
  show ?case by simp
next
  case (Cons y ys)
  have d: "jgt (jsub (k y) (k x)) (Fin 0) \<longleftrightarrow> jlt (k x) (k y)"
    using Cons.prems by (intro jgt_diff_pos) simp_all
  show ?case
  proof (cases "jlt (k x) (k y)")
    case True
    then have "\<not> jlt (k y) (k x)" by (rule jlt_asym)
    then show ?thesis
      using True Cons d by (auto simp: set_sort_insert)
  next
    case False
    have "\<forall>z\<in>set ys. \<not> jlt (k x) (k z)"
    proof
      fix z assume z: "z \<in> set ys"
      then have "\<not> jlt (k y) (k z)" using Cons.prems(1) by simp
      then show "\<not> jlt (k x) (k z)"
        using jlt_trans_neg [of "k z" "k y" "k x"] False Cons.prems z by simp
    qed
    then show ?thesis
      using False Cons.prems d by simp
  qed
qed

lemma sorted_js_sort_asc:
  assumes "\<forall>y\<in>set xs. jgt (k y) (Fin 0) \<and> jdouble (k y)"
  shows "sorted_wrt (\<lambda>a b. \<not> jlt (k b) (k a)) (js_sort (\<lambda>a b. jsub (k a) (k b)) xs)"
  using assms
proof (induction xs)
  case Nil
  show ?case by simp
next
  case (Cons x xs)
  then have "sorted_wrt (\<lambda>a b. \<not> jlt (k b) (k a)) (js_sort (\<lambda>a b. jsub (k a) (k b)) xs)"
    by simp
  then have "sorted_wrt (\<lambda>a b. \<not> jlt (k b) (k a))
               (sort_insert (\<lambda>a b. jsub (k a) (k b)) x (js_sort (\<lambda>a b. jsub (k a) (k b)) xs))"
    using Cons.prems by (intro sorted_sort_insert_asc) (simp_all add: set_js_sort)
  then show ?case by (simp add: js_sort_def)
qed

lemma sorted_js_sort_desc:
  assumes "\<forall>y\<in>set xs. jgt (k y) (Fin 0) \<and> jdouble (k y)"
  shows "sorted_wrt (\<lambda>a b. \<not> jlt (k a) (k b)) (js_sort (\<lambda>a b. jsub (k b) (k a)) xs)"
  using assms
proof (induction xs)
  case Nil
  show ?case by simp
next
  case (Cons x xs)
  then have "sorted_wrt (\<lambda>a b. \<not> jlt (k a) (k b)) (js_sort (\<lambda>a b. jsub (k b) (k a)) xs)"
    by simp
  then have "sorted_wrt (\<lambda>a b. \<not> jlt (k a) (k b))
               (sort_insert (\<lambda>a b. jsub (k b) (k a)) x (js_sort (\<lambda>a b. jsub (k b) (k a)) xs))"
    using Cons.prems by (intro sorted_sort_insert_desc) (simp_all add: set_js_sort)
  then show ?case by (simp add: js_sort_def)
qed

text \<open>The first element of a sorted list of prices, or 0 when there is none.\<close>

lemma firstOr0_member: "ps \<noteq> [] \<Longrightarrow> firstOr0 ps \<in> set ps"
  by (cases ps) (simp_all add: firstOr0_def)

lemma firstOr0_sorted:
  assumes "sorted_wrt R ps" and "p \<in> set ps" and "p \<noteq> firstOr0 ps"
  shows "R (firstOr0 ps) p"
  using assms by (cases ps) (auto simp: firstOr0_def)

lemma jlt_irrefl [simp]: "\<not> jlt a a"
  by (cases a) simp_all

lemma positivePrices_set:
  "set (positivePrices s) = {p \<in> fst ` set s. jgt p (Fin 0)}"
  by (auto simp: positivePrices_def jgt_0_iff)

subsection \<open>The loop of calculateVWAP\<close>

lemma Math_min_Fin_pos:
  assumes "jgt q (Fin 0)" and "0 < r"
  shows "\<exists>m. Math_min (Fin r) q = Fin m \<and> 0 < m \<and> m \<le> r \<and> jle (Fin m) q
           \<and> (m < r \<longrightarrow> q = Fin m)"
  using assms by (auto simp: jgt_0_iff Math_min_def jle_def)

lemma jsub_remaining:
  assumes "0 < m" and "m \<le> r" and "r \<le> v" and "double v"
  shows "\<exists>r'. jsub (Fin r) (Fin m) = Fin r' \<and> 0 \<le> r' \<and> r' \<le> v \<and> (m = r \<longrightarrow> r' = 0)"
proof -
  have nn: "nonneg (round64 (r - m))" using assms by (intro round64_nonneg) simp
  have "\<not> jlt (round64 v) (round64 (r - m))" using assms by (intro round64_mono) simp
  then have le: "\<not> jlt (Fin v) (round64 (r - m))" using assms(4) by (simp add: double_def)
  show ?thesis
  proof (cases "round64 (r - m)")
    case (Fin r')
    then show ?thesis using nn le by (auto simp: jsub_Fin nonneg_def)
  qed (use nn le in \<open>auto simp: nonneg_def\<close>)
qed

lemma fillLoop_fills:
  assumes "\<forall>x\<in>set os. jgt (quantity x) (Fin 0)" and "0 \<le> r" and "r \<le> v" and "double v"
  shows "\<exists>fills. snd (snd (snd (fillLoop os (Fin r, c, f, fo)))) = fo @ fills
           \<and> map price fills = take (length fills) (map price os)
           \<and> map quantity (butlast fills) = take (length fills - 1) (map quantity os)
           \<and> (fills \<noteq> [] \<longrightarrow> jle (quantity (last fills)) (quantity (os ! (length fills - 1))))
           \<and> (\<forall>x\<in>set fills. cost x = jmul (quantity x) (price x))
           \<and> (r = 0 \<longrightarrow> fills = [])
           \<and> (0 < r \<and> os \<noteq> [] \<longrightarrow> fills \<noteq> [])
           \<and> fst (fillLoop os (Fin r, c, f, fo)) = foldl jsub (Fin r) (map quantity fills)
           \<and> fst (snd (fillLoop os (Fin r, c, f, fo))) = foldl jadd c (map cost fills)
           \<and> fst (snd (snd (fillLoop os (Fin r, c, f, fo)))) = foldl jadd f (map quantity fills)
           \<and> (\<exists>r'. fst (fillLoop os (Fin r, c, f, fo)) = Fin r' \<and> 0 \<le> r' \<and> r' \<le> v)
           \<and> (fst (fillLoop os (Fin r, c, f, fo)) \<noteq> Fin 0 \<longrightarrow> length fills = length os)"
  using assms
proof (induction os arbitrary: r c f fo)
  case Nil
  then show ?case by simp
next
  case (Cons x xs)
  have q: "jgt (quantity x) (Fin 0)" and rest: "\<forall>y\<in>set xs. jgt (quantity y) (Fin 0)"
    using Cons.prems by simp_all
  show ?case
  proof (cases "r = 0")
    case True
    then show ?thesis using Cons.prems by (simp add: jle_def)
  next
    case False
    then have r: "0 < r" using Cons.prems by simp
    obtain m where m: "Math_min (Fin r) (quantity x) = Fin m" "0 < m" "m \<le> r"
      "jle (Fin m) (quantity x)" "m < r \<longrightarrow> quantity x = Fin m"
      using Math_min_Fin_pos [OF q r] by blast
    obtain r' where r': "jsub (Fin r) (Fin m) = Fin r'" "0 \<le> r'" "r' \<le> v" "m = r \<longrightarrow> r' = 0"
      using jsub_remaining [OF m(2,3) Cons.prems(3,4)] by blast
    let ?fill = "\<lparr> price = price x, quantity = Fin m, cost = jmul (Fin m) (price x) \<rparr>"
    let ?st = "(Fin r', jadd c (jmul (Fin m) (price x)), jadd f (Fin m), fo @ [?fill])"
    have step: "fillLoop (x # xs) (Fin r, c, f, fo) = fillLoop xs ?st"
      using r m(1) r'(1) by (simp add: jle_def Let_def)
    obtain fills where fills:
      "snd (snd (snd (fillLoop xs ?st))) = (fo @ [?fill]) @ fills"
      "map price fills = take (length fills) (map price xs)"
      "map quantity (butlast fills) = take (length fills - 1) (map quantity xs)"
      "fills \<noteq> [] \<longrightarrow> jle (quantity (last fills)) (quantity (xs ! (length fills - 1)))"
      "\<forall>x\<in>set fills. cost x = jmul (quantity x) (price x)"
      "r' = 0 \<longrightarrow> fills = []"
      "fst (fillLoop xs ?st) = foldl jsub (Fin r') (map quantity fills)"
      "fst (snd (fillLoop xs ?st)) = foldl jadd (jadd c (jmul (Fin m) (price x))) (map cost fills)"
      "fst (snd (snd (fillLoop xs ?st))) = foldl jadd (jadd f (Fin m)) (map quantity fills)"
      "\<exists>r''. fst (fillLoop xs ?st) = Fin r'' \<and> 0 \<le> r'' \<and> r'' \<le> v"
      "fst (fillLoop xs ?st) \<noteq> Fin 0 \<longrightarrow> length fills = length xs"
      using Cons.IH [OF rest r'(2,3) Cons.prems(4),
          of "jadd c (jmul (Fin m) (price x))" "jadd f (Fin m)" "fo @ [?fill]"]
      by blast
    have bl: "map quantity (butlast (?fill # fills))
                = take (length (?fill # fills) - 1) (map quantity (x # xs))"
    proof (cases fills)
      case Nil
      then show ?thesis by simp
    next
      case (Cons y ys)
      then have "m < r" using fills(6) r'(4) m(3) by auto
      then have "quantity x = Fin m" using m(5) by simp
      then show ?thesis using fills(3) Cons by simp
    qed
    have lst: "jle (quantity (last (?fill # fills)))
                 (quantity ((x # xs) ! (length (?fill # fills) - 1)))"
    proof (cases fills)
      case Nil
      then show ?thesis using m(4) by simp
    next
      case (Cons y ys)
      then show ?thesis using fills(4) by simp
    qed
    show ?thesis
      unfolding step
      apply (rule exI [of _ "?fill # fills"])
      using fills(1,2,5,7,8,9,10,11) bl lst r' r by (simp add: r'(1))
  qed
qed

lemma whole_Fin:
  "whole (Fin r) \<longleftrightarrow> (\<exists>i::int. r = of_int i \<and> 0 \<le> i \<and> i \<le> 2 ^ 53)"
proof
  assume w: "whole (Fin r)"
  then have a: "0 \<le> r" "r \<le> 2 ^ 53" "of_int \<lfloor>r\<rfloor> = r"
    unfolding whole_def jsnum.case by blast+
  have "\<lfloor>r\<rfloor> \<le> \<lfloor>2 ^ 53 :: real\<rfloor>" using a(2) by (rule floor_mono)
  then have "\<lfloor>r\<rfloor> \<le> 2 ^ 53" by simp
  moreover have "0 \<le> \<lfloor>r\<rfloor>" using a(1) by simp
  moreover have "r = of_int \<lfloor>r\<rfloor>" using a(3) by (rule sym)
  ultimately show "\<exists>i::int. r = of_int i \<and> 0 \<le> i \<and> i \<le> 2 ^ 53" by blast
next
  assume "\<exists>i::int. r = of_int i \<and> 0 \<le> i \<and> i \<le> 2 ^ 53"
  then obtain i :: int where i: "r = of_int i" "0 \<le> i" "i \<le> 2 ^ 53" by blast
  have "(of_int i :: real) \<le> of_int (2 ^ 53)" using i(3) by (simp only: of_int_le_iff)
  then show "whole (Fin r)" using i by (simp add: whole_def)
qed

lemma whole_cases: "whole x \<Longrightarrow> \<exists>i::int. x = Fin (of_int i) \<and> 0 \<le> i \<and> i \<le> 2 ^ 53"
  by (cases x) (simp_all add: whole_Fin, simp_all add: whole_def)

lemma sum_whole_nonneg:
  "\<forall>x\<in>set os. whole (quantity x) \<Longrightarrow> 0 \<le> sum_list (map (\<lambda>x. realOf (quantity x)) os)"
proof (induction os)
  case Nil
  show ?case by simp
next
  case (Cons x xs)
  obtain i :: int where "quantity x = Fin (of_int i)" "0 \<le> i"
    using Cons.prems whole_cases [of "quantity x"] by auto
  then show ?case using Cons by (simp add: realOf_def)
qed

lemma fillLoop_whole:
  assumes "\<forall>x\<in>set os. whole (quantity x) \<and> jgt (quantity x) (Fin 0)"
    and "0 \<le> i" and "0 \<le> j" and "i + j \<le> 2 ^ 53"
  shows "fst (fillLoop os (Fin (of_int i), c, Fin (of_int j), fo))
           = Fin (of_int i - min (of_int i) (sum_list (map (\<lambda>x. realOf (quantity x)) os)))
       \<and> fst (snd (snd (fillLoop os (Fin (of_int i), c, Fin (of_int j), fo))))
           = Fin (of_int j + min (of_int i) (sum_list (map (\<lambda>x. realOf (quantity x)) os)))"
  using assms
proof (induction os arbitrary: i j c fo)
  case Nil
  then show ?case by simp
next
  case (Cons x xs)
  let ?S = "sum_list (map (\<lambda>x. realOf (quantity x)) xs)"
  have rest: "\<forall>y\<in>set xs. whole (quantity y) \<and> jgt (quantity y) (Fin 0)"
    using Cons.prems by simp
  then have S: "0 \<le> ?S" by (intro sum_whole_nonneg) simp
  obtain k :: int where k: "quantity x = Fin (of_int k)" "0 \<le> k"
    using Cons.prems whole_cases [of "quantity x"] by auto
  have kpos: "0 < k" using Cons.prems k by (simp add: jgt_def)
  show ?case
  proof (cases "i = 0")
    case True
    then show ?thesis using S k by (simp add: jle_def realOf_def)
  next
    case False
    then have ipos: "0 < i" using Cons.prems by simp
    let ?m = "min i k"
    have m: "Math_min (Fin (of_int i)) (quantity x) = Fin (of_int ?m)"
      by (simp add: k Math_min_def min_def)
    have m0: "0 < ?m" "?m \<le> i" using ipos kpos by simp_all
    have "\<bar>i - ?m\<bar> \<le> 2 ^ 53" using m0 Cons.prems(2,3,4) by linarith
    then have rem: "jsub (Fin (of_int i)) (Fin (of_int ?m)) = Fin (of_int (i - ?m))"
      using round64_of_int [of "i - ?m"] by (simp add: jsub_Fin)
    have "\<bar>j + ?m\<bar> \<le> 2 ^ 53" using m0 Cons.prems(2,3,4) by linarith
    then have fil: "jadd (Fin (of_int j)) (Fin (of_int ?m)) = Fin (of_int (j + ?m))"
      using round64_of_int [of "j + ?m"] by simp
    let ?fill = "\<lparr> price = price x, quantity = Fin (of_int ?m),
                    cost = jmul (Fin (of_int ?m)) (price x) \<rparr>"
    let ?st = "(Fin (of_int (i - ?m)), jadd c (jmul (Fin (of_int ?m)) (price x)),
                Fin (of_int (j + ?m)), fo @ [?fill])"
    have step: "fillLoop (x # xs) (Fin (of_int i), c, Fin (of_int j), fo) = fillLoop xs ?st"
      using ipos m rem fil by (simp add: jle_def Let_def)
    have ih: "fst (fillLoop xs ?st) = Fin (of_int (i - ?m) - min (of_int (i - ?m)) ?S)
        \<and> fst (snd (snd (fillLoop xs ?st))) = Fin (of_int (j + ?m) + min (of_int (i - ?m)) ?S)"
      using m0 Cons.prems by (intro Cons.IH [OF rest]) simp_all
    have split: "min (of_int i) (of_int k + ?S) = of_int ?m + min (of_int (i - ?m)) ?S"
      using S by (cases "i \<le> k") (simp_all add: min_def)
    show ?thesis
      unfolding step using ih split by (simp add: k realOf_def)
  qed
qed

lemma validOrders_positiveLevels: "validOrders orders = positiveLevels (Some orders)"
  by (induction orders) (auto simp: validOrders_def positiveLevels_def)

lemma valid_quantity: "x \<in> set (validOrders orders) \<Longrightarrow> jgt (quantity x) (Fin 0)"
  by (auto simp: validOrders_def)

lemma valid_price: "x \<in> set (validOrders orders) \<Longrightarrow> jgt (price x) (Fin 0)"
  by (auto simp: validOrders_def)

lemma sortedOrders_quantity: "x \<in> set (sortedOrders orders side) \<Longrightarrow> jgt (quantity x) (Fin 0)"
  by (simp add: sortedOrders_def set_js_sort valid_quantity)

lemma sortedOrders_toward:
  assumes "\<forall>x\<in>set (validOrders orders). jdouble (price x)"
  shows "sorted_wrt (towardMarket side) (sortedOrders orders side)"
proof (cases "side = ''buy''")
  case True
  have "sorted_wrt (\<lambda>a b. \<not> jlt (price b) (price a))
          (js_sort (\<lambda>a b. jsub (price a) (price b)) (validOrders orders))"
    using assms by (intro sorted_js_sort_asc) (simp add: valid_price)
  then show ?thesis using True by (simp add: sortedOrders_def towardMarket_def [abs_def])
next
  case False
  have "sorted_wrt (\<lambda>a b. \<not> jlt (price a) (price b))
          (js_sort (\<lambda>a b. jsub (price b) (price a)) (validOrders orders))"
    using assms by (intro sorted_js_sort_desc) (simp add: valid_price)
  then show ?thesis using False by (simp add: sortedOrders_def towardMarket_def [abs_def])
qed

lemma calculateVWAP_early:
  assumes "consumedSide ob side = None \<or> consumedSide ob side = Some []"
  shows "calculateVWAP (Some ob) volume side = emptyVWAP volume"
  using assms by (auto simp: calculateVWAP_def)

lemma calculateVWAP_run:
  assumes "consumedSide ob side = Some orders" and "orders \<noteq> []" and "0 < v"
  shows "remainingVolume (calculateVWAP (Some ob) (Fin v) side)
           = fst (fillLoop (sortedOrders orders side) (Fin v, Fin 0, Fin 0, []))"
    and "totalVolume (calculateVWAP (Some ob) (Fin v) side)
           = fst (snd (snd (fillLoop (sortedOrders orders side) (Fin v, Fin 0, Fin 0, []))))"
    and "filledOrders (calculateVWAP (Some ob) (Fin v) side)
           = Some (snd (snd (snd (fillLoop (sortedOrders orders side) (Fin v, Fin 0, Fin 0, [])))))"
    and "vwap (calculateVWAP (Some ob) (Fin v) side)
           = (if jgt (fst (snd (snd (fillLoop (sortedOrders orders side) (Fin v, Fin 0, Fin 0, []))))) (Fin 0)
              then jdiv (fst (snd (fillLoop (sortedOrders orders side) (Fin v, Fin 0, Fin 0, []))))
                        (fst (snd (snd (fillLoop (sortedOrders orders side) (Fin v, Fin 0, Fin 0, [])))))
              else Fin 0)"
  using assms by (simp_all add: calculateVWAP_def jle_def Let_def split: prod.splits)

lemma emptyVWAP_fields:
  "totalVolume (emptyVWAP v) = Fin 0" "remainingVolume (emptyVWAP v) = v"
  "fillsOf (emptyVWAP v) = []" "vwap (emptyVWAP v) = Fin 0"
  by (simp_all add: emptyVWAP_def fillsOf_def)

subsection \<open>The sizing loop\<close>

lemma calculateVWAP_remaining:
  assumes "0 < v" and "double v"
  shows "\<exists>r. remainingVolume (calculateVWAP (Some ob) (Fin v) side) = Fin r \<and> 0 \<le> r"
proof (cases "\<exists>orders. consumedSide ob side = Some orders \<and> orders \<noteq> []")
  case False
  then have "consumedSide ob side = None \<or> consumedSide ob side = Some []"
    by (cases "consumedSide ob side") auto
  then have "calculateVWAP (Some ob) (Fin v) side = emptyVWAP (Fin v)"
    by (rule calculateVWAP_early)
  then show ?thesis using assms(1) by (simp add: emptyVWAP_fields)
next
  case True
  then obtain orders where orders: "consumedSide ob side = Some orders" "orders \<noteq> []"
    by blast
  let ?os = "sortedOrders orders side"
  have valid: "\<forall>x\<in>set ?os. jgt (quantity x) (Fin 0)"
    by (simp add: sortedOrders_quantity)
  have v0: "0 \<le> v" "v \<le> v" using assms by simp_all
  have "\<exists>r'. fst (fillLoop ?os (Fin v, Fin 0, Fin 0, [])) = Fin r' \<and> 0 \<le> r' \<and> r' \<le> v"
    using fillLoop_fills [OF valid v0 assms(2), of "Fin 0" "Fin 0" "[]"] by blast
  then show ?thesis using calculateVWAP_run(1) [OF orders assms(1)] by auto
qed

lemma not_jgt_zero: "0 \<le> r \<Longrightarrow> \<not> jgt (Fin r) (Fin 0) \<Longrightarrow> r = 0"
  by (simp add: jgt_def)

text \<open>One more step on a size below 1000: the rounded sum is finite and has grown.\<close>

lemma size_step:
  assumes "1 / 128 \<le> s" and "double s" and "0 \<le> c" and "c < 1000"
    and "s < 1000 \<or> c = 0"
  shows "\<exists>r. jadd (Fin c) (Fin s) = Fin r \<and> c + 1 / 256 \<le> r \<and> double r
           \<and> (1000 \<le> s \<longrightarrow> 1000 \<le> r)"
proof (cases "s < 1000")
  case True
  have x: "0 < c + s" using assms by simp
  have "c + s < 2048" using assms True by simp
  then have "c + s < 2 powi 11" by simp
  then obtain r where r: "round64 (c + s) = Fin r" "\<bar>r - (c + s)\<bar> \<le> 2 powi (11 - 54)"
    using round64_error [OF x, of 11] by (auto simp: emin_def emax_def)
  have "(2::real) powi (11 - 54) \<le> 1 / 256" by (simp add: power_int_minus)
  then have "c + 1 / 256 \<le> r" using r(2) assms(1) by linarith
  moreover have "double r" using r(1) by (rule round64_idem)
  ultimately show ?thesis using r(1) True by simp
next
  case False
  then have c: "c = 0" using assms by simp
  then have "jadd (Fin c) (Fin s) = Fin s" using assms(2) by (simp add: double_def)
  then show ?thesis using False assms c by simp
qed

lemma measure_step:
  assumes "c + 1 / 256 \<le> r" and "c < (1000::real)"
  shows "nat \<lceil>(1000 - r) * 256\<rceil> < nat \<lceil>(1000 - c) * 256\<rceil>"
proof -
  have "(1000 - r) * 256 \<le> (1000 - c) * 256 - 1" using assms by simp
  then have "\<lceil>(1000 - r) * 256\<rceil> \<le> \<lceil>(1000 - c) * 256 - 1\<rceil>" by (rule ceiling_mono)
  moreover have "\<lceil>(1000 - c) * 256 - 1\<rceil> = \<lceil>(1000 - c) * 256\<rceil> - 1"
    by (rule ceiling_diff_one)
  ultimately have "\<lceil>(1000 - r) * 256\<rceil> < \<lceil>(1000 - c) * 256\<rceil>" by linarith
  moreover have "0 < (1000 - c) * 256" using assms by simp
  then have "0 < \<lceil>(1000 - c) * 256\<rceil>" by simp
  ultimately show ?thesis by linarith
qed

lemma sizingLoop_doubles:
  assumes "1 / 128 \<le> s" and "double s" and "0 \<le> c"
    and "s < 1000 \<or> c = 0 \<or> 1000 \<le> c"
  shows "\<exists>new. sizingLoop (Some ob) maxSlippage side reference (Fin s) (Fin c) recs
                  = Some (recs @ new)
           \<and> (\<forall>i<length new. size_r (new ! i) = ((\<lambda>x. jadd x (Fin s)) ^^ Suc i) (Fin c))
           \<and> (\<forall>r\<in>set new.
                 remainingVolume (calculateVWAP (Some ob) (size_r r) side) = Fin 0
               \<and> price_r r = vwap (calculateVWAP (Some ob) (size_r r) side)
               \<and> slippage r = jmul (jdiv (jsub (price_r r) reference) reference) (Fin 100)
               \<and> cost_r r = totalCost (calculateVWAP (Some ob) (size_r r) side))
           \<and> (\<forall>r\<in>set (butlast new). \<not> jgt (Math_abs (slippage r)) maxSlippage)
           \<and> (new = [] \<or> \<not> jgt (Math_abs (slippage (last new))) maxSlippage \<longrightarrow>
                \<not> jlt (((\<lambda>x. jadd x (Fin s)) ^^ length new) (Fin c)) (Fin 1000)
              \<or> jgt (remainingVolume (calculateVWAP (Some ob)
                        (((\<lambda>x. jadd x (Fin s)) ^^ Suc (length new)) (Fin c)) side)) (Fin 0))"
  using assms(3,4)
proof (induction "nat \<lceil>(1000 - c) * 256\<rceil>" arbitrary: c recs rule: less_induct)
  case less
  let ?f = "\<lambda>x. jadd x (Fin s)"
  show ?case
  proof (cases "c < 1000")
    case False
    then have "sizingLoop (Some ob) maxSlippage side reference (Fin s) (Fin c) recs = Some recs"
      by (subst sizingLoop.simps) simp
    then show ?thesis using False by simp
  next
    case True
    then have inv: "s < 1000 \<or> c = 0" using less.prems by auto
    obtain r where r: "jadd (Fin c) (Fin s) = Fin r" "c + 1 / 256 \<le> r" "double r"
      "1000 \<le> s \<longrightarrow> 1000 \<le> r"
      using size_step [OF assms(1,2) less.prems(1) True inv] by blast
    have rpos: "0 < r" using r(2) less.prems(1) by simp
    let ?vw = "calculateVWAP (Some ob) (Fin r) side"
    obtain m where m: "remainingVolume ?vw = Fin m" "0 \<le> m"
      using calculateVWAP_remaining [OF rpos r(3)] by blast
    show ?thesis
    proof (cases "jgt (remainingVolume ?vw) (Fin 0)")
      case stop: True
      have "sizingLoop (Some ob) maxSlippage side reference (Fin s) (Fin c) recs = Some recs"
        using True stop r(1) by (subst sizingLoop.simps) (simp add: Let_def)
      then show ?thesis using stop r(1) by simp
    next
      case filled: False
      have full: "remainingVolume ?vw = Fin 0"
        using m filled not_jgt_zero [of m] by simp
      let ?slip = "jmul (jdiv (jsub (vwap ?vw) reference) reference) (Fin 100)"
      let ?rec = "\<lparr> size_r = Fin r, price_r = vwap ?vw, slippage = ?slip,
                     cost_r = totalCost ?vw \<rparr>"
      show ?thesis
      proof (cases "jgt (Math_abs ?slip) maxSlippage")
        case exceed: True
        have "sizingLoop (Some ob) maxSlippage side reference (Fin s) (Fin c) recs
                = Some (recs @ [?rec])"
          using True filled exceed r(1) by (subst sizingLoop.simps) (simp add: Let_def)
        then show ?thesis using full exceed r(1) by simp
      next
        case within: False
        have unfold: "sizingLoop (Some ob) maxSlippage side reference (Fin s) (Fin c) recs
                = sizingLoop (Some ob) maxSlippage side reference (Fin s) (Fin r)
                    (recs @ [?rec])"
          using True filled within r(1) by (subst sizingLoop.simps) (simp add: Let_def)
        have meas: "nat \<lceil>(1000 - r) * 256\<rceil> < nat \<lceil>(1000 - c) * 256\<rceil>"
          using r(2) True by (rule measure_step)
        have r0: "0 \<le> r" using rpos by simp
        have inv': "s < 1000 \<or> r = 0 \<or> 1000 \<le> r" using r(4) by auto
        obtain new where new:
          "sizingLoop (Some ob) maxSlippage side reference (Fin s) (Fin r) (recs @ [?rec])
             = Some ((recs @ [?rec]) @ new)"
          "\<forall>i<length new. size_r (new ! i) = (?f ^^ Suc i) (Fin r)"
          "\<forall>x\<in>set new.
                 remainingVolume (calculateVWAP (Some ob) (size_r x) side) = Fin 0
               \<and> price_r x = vwap (calculateVWAP (Some ob) (size_r x) side)
               \<and> slippage x = jmul (jdiv (jsub (price_r x) reference) reference) (Fin 100)
               \<and> cost_r x = totalCost (calculateVWAP (Some ob) (size_r x) side)"
          "\<forall>x\<in>set (butlast new). \<not> jgt (Math_abs (slippage x)) maxSlippage"
          "new = [] \<or> \<not> jgt (Math_abs (slippage (last new))) maxSlippage \<longrightarrow>
                \<not> jlt ((?f ^^ length new) (Fin r)) (Fin 1000)
              \<or> jgt (remainingVolume (calculateVWAP (Some ob)
                        ((?f ^^ Suc (length new)) (Fin r)) side)) (Fin 0)"
          using less.hyps [OF meas r0 inv', of "recs @ [?rec]"] by blast
        have shift: "(?f ^^ n) (Fin r) = (?f ^^ Suc n) (Fin c)" for n
        proof -
          have "(?f ^^ Suc n) (Fin c) = (?f ^^ n) (jadd (Fin c) (Fin s))"
            by (simp only: funpow_Suc_right o_apply)
          then show ?thesis by (simp only: r(1))
        qed
        have sizes: "\<forall>i<length (?rec # new). size_r ((?rec # new) ! i) = (?f ^^ Suc i) (Fin c)"
        proof (intro allI impI)
          fix i assume i: "i < length (?rec # new)"
          show "size_r ((?rec # new) ! i) = (?f ^^ Suc i) (Fin c)"
          proof (cases i)
            case 0
            then show ?thesis using r(1) by simp
          next
            case (Suc j)
            then have "j < length new" using i by simp
            then have "size_r (new ! j) = (?f ^^ Suc j) (Fin r)" using new(2) by simp
            then show ?thesis using Suc shift [of "Suc j"] by simp
          qed
        qed
        have bl: "\<forall>x\<in>set (butlast (?rec # new)). \<not> jgt (Math_abs (slippage x)) maxSlippage"
          using within new(4) by (auto split: if_splits)
        have fl: "\<forall>x\<in>set (?rec # new).
                 remainingVolume (calculateVWAP (Some ob) (size_r x) side) = Fin 0
               \<and> price_r x = vwap (calculateVWAP (Some ob) (size_r x) side)
               \<and> slippage x = jmul (jdiv (jsub (price_r x) reference) reference) (Fin 100)
               \<and> cost_r x = totalCost (calculateVWAP (Some ob) (size_r x) side)"
          using full new(3) by simp
        have stop: "?rec # new = [] \<or> \<not> jgt (Math_abs (slippage (last (?rec # new)))) maxSlippage \<longrightarrow>
                \<not> jlt ((?f ^^ length (?rec # new)) (Fin c)) (Fin 1000)
              \<or> jgt (remainingVolume (calculateVWAP (Some ob)
                        ((?f ^^ Suc (length (?rec # new))) (Fin c)) side)) (Fin 0)"
        proof
          assume a: "?rec # new = [] \<or> \<not> jgt (Math_abs (slippage (last (?rec # new)))) maxSlippage"
          have "new = [] \<or> \<not> jgt (Math_abs (slippage (last new))) maxSlippage"
            using a by (cases new) simp_all
          then have "\<not> jlt ((?f ^^ length new) (Fin r)) (Fin 1000)
              \<or> jgt (remainingVolume (calculateVWAP (Some ob)
                        ((?f ^^ Suc (length new)) (Fin r)) side)) (Fin 0)"
            using new(5) by simp
          then show "\<not> jlt ((?f ^^ length (?rec # new)) (Fin c)) (Fin 1000)
              \<or> jgt (remainingVolume (calculateVWAP (Some ob)
                        ((?f ^^ Suc (length (?rec # new))) (Fin c)) side)) (Fin 0)"
            using shift [of "length new"] shift [of "Suc (length new)"] by simp
        qed
        have "sizingLoop (Some ob) maxSlippage side reference (Fin s) (Fin c) recs
                = Some (recs @ (?rec # new))"
          using unfold new(1) by simp
        then show ?thesis using sizes fl bl stop by blast
      qed
    qed
  qed
qed

lemma round64_hundredth: "round64 (1 / 100) = Fin (5764607523034235 / 576460752303423488)"
  by (subst round64_normal [where e = "- 7"])
     (simp_all add: emin_def emax_def rne_def Let_def power_int_minus)

lemma round64_one_half: "round64 (1 / 2) = Fin (1 / 2)"
  using double_dyadic [of 1 "- 1"]
  by (simp add: double_def emin_def emax_def power_int_minus)

lemma vwap_64_128_1: "calculateVWAP (Some asks64_128) (Fin 1) ''buy''
   = \<lparr> vwap = Fin 64, totalVolume = Fin 1, remainingVolume = Fin 0, priceImpact = Fin 0,
       averagePrice = Some (Fin 64), totalCost = Some (Fin 64),
       filledOrders = Some [\<lparr> price = Fin 64, quantity = Fin 1, cost = Fin 64 \<rparr>] \<rparr>"
  by (simp add: calculateVWAP_def asks64_128_def consumedSide_def sortedOrders_def validOrders_def
      js_sort_def jgt_def jle_def jsub_def Math_min_def Let_def getBestPrices_def
      positivePrices_def firstOr0_def round64_minus round64_numeral)

lemma vwap_64_128_2: "calculateVWAP (Some asks64_128) (Fin 2) ''buy''
   = \<lparr> vwap = Fin 96, totalVolume = Fin 2, remainingVolume = Fin 0, priceImpact = Fin 50,
       averagePrice = Some (Fin 96), totalCost = Some (Fin 192),
       filledOrders = Some [\<lparr> price = Fin 64, quantity = Fin 1, cost = Fin 64 \<rparr>,
                            \<lparr> price = Fin 128, quantity = Fin 1, cost = Fin 128 \<rparr>] \<rparr>"
  by (simp add: calculateVWAP_def asks64_128_def consumedSide_def sortedOrders_def validOrders_def
      js_sort_def jgt_def jle_def jsub_def Math_min_def Let_def getBestPrices_def
      positivePrices_def firstOr0_def round64_minus round64_numeral round64_one_half)

lemma vwap_64_128_3:
  "remainingVolume (calculateVWAP (Some asks64_128) (Fin 3) ''buy'') = Fin 1"
  by (simp add: calculateVWAP_def asks64_128_def consumedSide_def sortedOrders_def validOrders_def
      js_sort_def jgt_def jle_def jsub_def Math_min_def Let_def getBestPrices_def
      positivePrices_def firstOr0_def round64_minus round64_numeral round64_one_half)

lemma vwap_unordered_2: "calculateVWAP (Some asksUnordered) (Fin 2) ''buy''
   = \<lparr> vwap = Fin 1, totalVolume = Fin 2, remainingVolume = Fin 0, priceImpact = Fin 100,
       averagePrice = Some (Fin 1), totalCost = Some (Fin 2),
       filledOrders = Some [\<lparr> price = Fin (1 / 2), quantity = Fin 1, cost = Fin (1 / 2) \<rparr>,
                            \<lparr> price = Fin (3 / 2), quantity = Fin 1, cost = Fin (3 / 2) \<rparr>] \<rparr>"
  by (simp add: calculateVWAP_def asksUnordered_def consumedSide_def sortedOrders_def
      validOrders_def js_sort_def jgt_def jle_def jsub_def Math_min_def Let_def getBestPrices_def
      positivePrices_def firstOr0_def round64_minus round64_numeral round64_one_half
      round64_half)

lemma sizing_64_128:
  "calculateOptimalSizing (Some asks64_128) (Fin 1) ''buy''
     = Some (Inr \<lparr> maxSize = Fin 2,
                   recommendations =
                     [\<lparr> size_r = Fin 1, price_r = Fin 64, slippage = Fin 0,
                        cost_r = Some (Fin 64) \<rparr>,
                      \<lparr> size_r = Fin 2, price_r = Fin 96, slippage = Fin 50,
                        cost_r = Some (Fin 192) \<rparr>],
                   referencePrice = Some (Fin 64) \<rparr>)"
proof -
  have ref: "bestAsk (getBestPrices (Some asks64_128)) = Fin 64"
    by (simp add: getBestPrices_def asks64_128_def positivePrices_def js_sort_def jgt_def
        jsub_def firstOr0_def Let_def round64_minus round64_numeral)
  have step: "sizingStep [(Fin 64, NumberValue (Fin 1)), (Fin 128, NumberValue (Fin 1))] = Fin 1"
    by (simp add: sizingStep_def falsy_def Math_max_def round64_hundredth)
  have side: "consumedSide asks64_128 ''buy''
                = Some [(Fin 64, NumberValue (Fin 1)), (Fin 128, NumberValue (Fin 1))]"
    by (simp add: consumedSide_def asks64_128_def)
  have loop2: "sizingLoop (Some asks64_128) (Fin 1) ''buy'' (Fin 64) (Fin 1) (Fin 1) recs
     = Some (recs @ [\<lparr> size_r = Fin 2, price_r = Fin 96, slippage = Fin 50,
                       cost_r = Some (Fin 192) \<rparr>])" for recs
    by (subst sizingLoop.simps)
       (simp add: vwap_64_128_2 Let_def jgt_def jsub_def round64_numeral round64_one_half)
  have loop1: "sizingLoop (Some asks64_128) (Fin 1) ''buy'' (Fin 64) (Fin 1) (Fin 0) []
     = Some [\<lparr> size_r = Fin 1, price_r = Fin 64, slippage = Fin 0, cost_r = Some (Fin 64) \<rparr>,
             \<lparr> size_r = Fin 2, price_r = Fin 96, slippage = Fin 50, cost_r = Some (Fin 192) \<rparr>]"
    by (subst sizingLoop.simps)
       (simp add: vwap_64_128_1 loop2 Let_def jgt_def jsub_def round64_numeral)
  show ?thesis
    by (simp add: calculateOptimalSizing_def side ref step loop1 lastSize_def Let_def)
qed

lemma sizing_64_128_wide:
  "calculateOptimalSizing (Some asks64_128) (Fin 100) ''buy''
     = Some (Inr \<lparr> maxSize = Fin 2,
                   recommendations =
                     [\<lparr> size_r = Fin 1, price_r = Fin 64, slippage = Fin 0,
                        cost_r = Some (Fin 64) \<rparr>,
                      \<lparr> size_r = Fin 2, price_r = Fin 96, slippage = Fin 50,
                        cost_r = Some (Fin 192) \<rparr>],
                   referencePrice = Some (Fin 64) \<rparr>)"
proof -
  have ref: "bestAsk (getBestPrices (Some asks64_128)) = Fin 64"
    by (simp add: getBestPrices_def asks64_128_def positivePrices_def js_sort_def jgt_def
        jsub_def firstOr0_def Let_def round64_minus round64_numeral)
  have step: "sizingStep [(Fin 64, NumberValue (Fin 1)), (Fin 128, NumberValue (Fin 1))] = Fin 1"
    by (simp add: sizingStep_def falsy_def Math_max_def round64_hundredth)
  have side: "consumedSide asks64_128 ''buy''
                = Some [(Fin 64, NumberValue (Fin 1)), (Fin 128, NumberValue (Fin 1))]"
    by (simp add: consumedSide_def asks64_128_def)
  have loop3: "sizingLoop (Some asks64_128) (Fin 100) ''buy'' (Fin 64) (Fin 1) (Fin 2) recs
     = Some recs" for recs
    by (subst sizingLoop.simps)
       (simp add: vwap_64_128_3 Let_def jgt_def round64_numeral)
  have loop2: "sizingLoop (Some asks64_128) (Fin 100) ''buy'' (Fin 64) (Fin 1) (Fin 1) recs
     = Some (recs @ [\<lparr> size_r = Fin 2, price_r = Fin 96, slippage = Fin 50,
                       cost_r = Some (Fin 192) \<rparr>])" for recs
    by (subst sizingLoop.simps)
       (simp add: vwap_64_128_2 loop3 Let_def jgt_def jsub_def round64_numeral round64_one_half)
  have loop1: "sizingLoop (Some asks64_128) (Fin 100) ''buy'' (Fin 64) (Fin 1) (Fin 0) []
     = Some [\<lparr> size_r = Fin 1, price_r = Fin 64, slippage = Fin 0, cost_r = Some (Fin 64) \<rparr>,
             \<lparr> size_r = Fin 2, price_r = Fin 96, slippage = Fin 50, cost_r = Some (Fin 192) \<rparr>]"
    by (subst sizingLoop.simps)
       (simp add: vwap_64_128_1 loop2 Let_def jgt_def jsub_def round64_numeral)
  show ?thesis
    by (simp add: calculateOptimalSizing_def side ref step loop1 lastSize_def Let_def)
qed

subsection \<open>Timers of the connection\<close>

lemma clearTimeouts_timers:
  "timers (clearTimeouts st)
     = filter (\<lambda>t. Some (timerId t) \<noteq> reconnectTimeoutRef st
                   \<and> Some (timerId t) \<noteq> heartbeatTimeoutRef st) (timers st)"
  by (auto simp: clearTimeouts_def clearTimeout_def Let_def split: option.splits
      intro: filter_cong)

lemma clearTimeouts_refs:
  "reconnectTimeoutRef (clearTimeouts st) = None"
  "heartbeatTimeoutRef (clearTimeouts st) = None"
  by (simp_all add: clearTimeouts_def clearTimeout_def Let_def split: option.splits)

lemma clearTimeouts_same:
  "nextTimerId (clearTimeouts st) = nextTimerId st"
  "webSocketRef (clearTimeouts st) = webSocketRef st"
  "messageQueueRef (clearTimeouts st) = messageQueueRef st"
  "connectionAttempts (clearTimeouts st) = connectionAttempts st"
  by (simp_all add: clearTimeouts_def clearTimeout_def Let_def split: option.splits)

subsection \<open>The outbound queue\<close>

lemma flushQueue_open:
  "sockReadyState sock = OPEN \<Longrightarrow>
     flushQueue queue sock = ([], sock\<lparr> sent := sent sock @ queue \<rparr>)"
proof (induction queue arbitrary: sock)
  case Nil
  show ?case by simp
next
  case (Cons message rest)
  have "sockReadyState (socket_send message sock) = OPEN"
    using Cons.prems by (simp add: socket_send_def)
  then have "flushQueue rest (socket_send message sock)
               = ([], (socket_send message sock)\<lparr> sent := sent (socket_send message sock) @ rest \<rparr>)"
    by (rule Cons.IH)
  then show ?case using Cons.prems by (simp add: socket_send_def)
qed

lemma socketOpens_flush:
  assumes "webSocketRef st = Some sock"
  shows "webSocketRef (socketOpens opts st)
           = Some (sock\<lparr> sockReadyState := OPEN, sent := sent sock @ messageQueueRef st \<rparr>)"
    and "messageQueueRef (socketOpens opts st) = []"
  using assms
  by (simp_all add: socketOpens_def onopen_def processMessageQueue_def startHeartbeat_def
      setTimeout_def flushQueue_open Let_def)

lemma sendAll_queued:
  assumes "webSocketRef st = Some sock" and "sockReadyState sock \<noteq> OPEN"
  shows "sendAll js ms st
           = st\<lparr> messageQueueRef := messageQueueRef st @ map (messageStr js) ms \<rparr>"
  using assms
proof (induction ms arbitrary: st)
  case Nil
  show ?case by (simp add: sendAll_def)
next
  case (Cons m ms)
  let ?st1 = "st\<lparr> messageQueueRef := messageQueueRef st @ [messageStr js m] \<rparr>"
  have one: "snd (sendMessage js m st) = ?st1"
    using Cons.prems by (simp add: sendMessage_def)
  have "sendAll js ms ?st1
          = ?st1\<lparr> messageQueueRef := messageQueueRef ?st1 @ map (messageStr js) ms \<rparr>"
    using Cons.prems by (intro Cons.IH) simp_all
  then show ?case using one by (simp add: sendAll_def)
qed

lemma emitted_sendMessage:
  assumes "webSocketRef st \<noteq> None"
  shows "emitted st (snd (sendMessage js m st)) = [messageStr js m]"
  using assms
  by (auto simp: emitted_def sentOf_def sendMessage_def socket_send_def)

subsection \<open>C1: best prices of a book with an empty side\<close>

text \<open>
  C1 as stated (all five fields are 0 as soon as one side is empty) fails where only one side
  is empty: with no bids and the single ask 100, \<open>bestAsk\<close> and \<open>spread\<close> are 100.
\<close>

theorem getBestPrices_one_side_counterexample:
  "getBestPrices (Some \<lparr> Bids = Some [], Asks = Some [(Fin 100, NumberValue (Fin 1))],
                          Sources = None, Exchange = None \<rparr>)
     = \<lparr> bestBid = Fin 0, bestAsk = Fin 100, spread = Fin 100,
         spreadPercent = Fin 0, midPrice = Fin 0 \<rparr>
   \<and> getBestPrices (Some \<lparr> Bids = Some [], Asks = Some [(Fin 100, NumberValue (Fin 1))],
                            Sources = None, Exchange = None \<rparr>) \<noteq> zeroPrices"
  by (simp add: getBestPrices_def positivePrices_def js_sort_def firstOr0_def jgt_def
        jsub_def zeroPrices_def Let_def round64_numeral)

text \<open>
  C1, amended: in a book with an empty side (no key that \<open>parseFloat\<close> reads as a number
  greater than 0), \<open>midPrice\<close> and \<open>spreadPercent\<close> are 0 and the best price of the empty
  side is 0; \<open>spread\<close> is still \<open>bestAsk - bestBid\<close>, and the best price of the other
  side is still reported: it is one of the keys of that side that are greater than 0, the
  lowest of them for the asks and the highest for the bids (the keys being doubles, as
  \<open>parseFloat\<close> yields them). All five fields are 0 when both sides are empty.
\<close>

theorem getBestPrices_empty_side:
  assumes "Bids ob = Some bids" and "Asks ob = Some asks"
    and "positivePrices bids = [] \<or> positivePrices asks = []"
  shows "midPrice (getBestPrices (Some ob)) = Fin 0
       \<and> spreadPercent (getBestPrices (Some ob)) = Fin 0
       \<and> spread (getBestPrices (Some ob))
           = jsub (bestAsk (getBestPrices (Some ob))) (bestBid (getBestPrices (Some ob)))
       \<and> (positivePrices bids = [] \<longrightarrow> bestBid (getBestPrices (Some ob)) = Fin 0)
       \<and> (positivePrices asks = [] \<longrightarrow> bestAsk (getBestPrices (Some ob)) = Fin 0)
       \<and> (positivePrices bids = [] \<and> positivePrices asks = []
            \<longrightarrow> getBestPrices (Some ob) = zeroPrices)
       \<and> (positivePrices asks \<noteq> [] \<longrightarrow>
            bestAsk (getBestPrices (Some ob)) \<in> fst ` set asks
            \<and> jgt (bestAsk (getBestPrices (Some ob))) (Fin 0)
            \<and> ((\<forall>p\<in>fst ` set asks. jdouble p) \<longrightarrow>
                 (\<forall>p\<in>fst ` set asks. jgt p (Fin 0)
                    \<longrightarrow> \<not> jlt p (bestAsk (getBestPrices (Some ob))))))
       \<and> (positivePrices bids \<noteq> [] \<longrightarrow>
            bestBid (getBestPrices (Some ob)) \<in> fst ` set bids
            \<and> jgt (bestBid (getBestPrices (Some ob))) (Fin 0)
            \<and> ((\<forall>p\<in>fst ` set bids. jdouble p) \<longrightarrow>
                 (\<forall>p\<in>fst ` set bids. jgt p (Fin 0)
                    \<longrightarrow> \<not> jlt (bestBid (getBestPrices (Some ob))) p)))"
proof -
  let ?R = "getBestPrices (Some ob)"
  let ?asc = "js_sort (\<lambda>a b. jsub a b) (positivePrices asks)"
  let ?desc = "js_sort (\<lambda>a b. jsub b a) (positivePrices bids)"
  have ask: "bestAsk ?R = firstOr0 ?asc" and bid: "bestBid ?R = firstOr0 ?desc"
    using assms(1,2) by (simp_all add: getBestPrices_def Let_def)
  have zero: "midPrice ?R = Fin 0 \<and> spreadPercent ?R = Fin 0
       \<and> spread ?R = jsub (bestAsk ?R) (bestBid ?R)
       \<and> (positivePrices bids = [] \<longrightarrow> bestBid ?R = Fin 0)
       \<and> (positivePrices asks = [] \<longrightarrow> bestAsk ?R = Fin 0)
       \<and> (positivePrices bids = [] \<and> positivePrices asks = [] \<longrightarrow> ?R = zeroPrices)"
    using assms
    by (auto simp add: getBestPrices_def Let_def js_sort_def firstOr0_def jgt_def jsub_def
          zeroPrices_def)
  have asks: "bestAsk ?R \<in> fst ` set asks \<and> jgt (bestAsk ?R) (Fin 0)
       \<and> ((\<forall>p\<in>fst ` set asks. jdouble p) \<longrightarrow>
            (\<forall>p\<in>fst ` set asks. jgt p (Fin 0) \<longrightarrow> \<not> jlt p (bestAsk ?R)))"
    if ne: "positivePrices asks \<noteq> []"
  proof -
    have "?asc \<noteq> []" using ne length_js_sort [of "\<lambda>a b. jsub a b" "positivePrices asks"]
      by (cases ?asc) auto
    then have "firstOr0 ?asc \<in> set ?asc" by (rule firstOr0_member)
    then have mem: "bestAsk ?R \<in> set (positivePrices asks)" by (simp add: ask set_js_sort)
    have least: "\<not> jlt p (bestAsk ?R)"
      if d: "\<forall>p\<in>fst ` set asks. jdouble p" and p: "p \<in> fst ` set asks" "jgt p (Fin 0)" for p
    proof (cases "p = bestAsk ?R")
      case True
      then show ?thesis by simp
    next
      case False
      have "\<forall>y\<in>set (positivePrices asks). jgt y (Fin 0) \<and> jdouble y"
        using d by (auto simp: positivePrices_set)
      then have "sorted_wrt (\<lambda>a b. \<not> jlt b a) ?asc"
        by (rule sorted_js_sort_asc [where k = "\<lambda>x. x"])
      moreover have "p \<in> set ?asc" using p by (simp add: set_js_sort positivePrices_set)
      ultimately show ?thesis using False firstOr0_sorted [of _ ?asc p] by (simp add: ask)
    qed
    show ?thesis using mem least by (auto simp: positivePrices_set)
  qed
  have bids: "bestBid ?R \<in> fst ` set bids \<and> jgt (bestBid ?R) (Fin 0)
       \<and> ((\<forall>p\<in>fst ` set bids. jdouble p) \<longrightarrow>
            (\<forall>p\<in>fst ` set bids. jgt p (Fin 0) \<longrightarrow> \<not> jlt (bestBid ?R) p))"
    if ne: "positivePrices bids \<noteq> []"
  proof -
    have "?desc \<noteq> []" using ne length_js_sort [of "\<lambda>a b. jsub b a" "positivePrices bids"]
      by (cases ?desc) auto
    then have "firstOr0 ?desc \<in> set ?desc" by (rule firstOr0_member)
    then have mem: "bestBid ?R \<in> set (positivePrices bids)" by (simp add: bid set_js_sort)
    have most: "\<not> jlt (bestBid ?R) p"
      if d: "\<forall>p\<in>fst ` set bids. jdouble p" and p: "p \<in> fst ` set bids" "jgt p (Fin 0)" for p
    proof (cases "p = bestBid ?R")
      case True
      then show ?thesis by simp
    next
      case False
      have "\<forall>y\<in>set (positivePrices bids). jgt y (Fin 0) \<and> jdouble y"
        using d by (auto simp: positivePrices_set)
      then have "sorted_wrt (\<lambda>a b. \<not> jlt a b) ?desc"
        by (rule sorted_js_sort_desc [where k = "\<lambda>x. x"])
      moreover have "p \<in> set ?desc" using p by (simp add: set_js_sort positivePrices_set)
      ultimately show ?thesis using False firstOr0_sorted [of _ ?desc p] by (simp add: bid)
    qed
    show ?thesis using mem most by (auto simp: positivePrices_set)
  qed
  show ?thesis using zero asks bids by blast
qed

theorem getBestPrices_empty_side_witness:
  "positivePrices [] = []
   \<and> positivePrices [(Fin 100, NumberValue (Fin 1)), (Fin 101, NumberValue (Fin 2))] \<noteq> []
   \<and> jdouble (Fin 100) \<and> jdouble (Fin 101)
   \<and> midPrice (getBestPrices (Some asks12)) = Fin 0
   \<and> bestBid (getBestPrices (Some asks12)) = Fin 0
   \<and> bestAsk (getBestPrices (Some asks12)) \<in> {Fin 100, Fin 101}
   \<and> \<not> jlt (Fin 100) (bestAsk (getBestPrices (Some asks12)))"
  using getBestPrices_empty_side
          [of asks12 "[]" "[(Fin 100, NumberValue (Fin 1)), (Fin 101, NumberValue (Fin 2))]"]
  by (simp add: positivePrices_def asks12_def jgt_def double_numeral)

subsection \<open>C2: the fill computed by calculateVWAP\<close>

text \<open>The roundings of the example with the quantities 0.1, 0.2 and 0.3.\<close>

lemma round64_tenth: "round64 (1 / 10) = Fin (3602879701896397 / 36028797018963968)"
  by (subst round64_normal [where e = "- 4"])
     (simp_all add: emin_def emax_def rne_def Let_def power_int_minus)

lemma round64_fifth: "round64 (1 / 5) = Fin (3602879701896397 / 18014398509481984)"
  by (subst round64_normal [where e = "- 3"])
     (simp_all add: emin_def emax_def rne_def Let_def power_int_minus)

lemma round64_three_tenths: "round64 (3 / 10) = Fin (5404319552844595 / 18014398509481984)"
  by (subst round64_normal [where e = "- 2"])
     (simp_all add: emin_def emax_def rne_def Let_def power_int_minus)

lemma round64_three_fifths: "round64 (3 / 5) = Fin (5404319552844595 / 9007199254740992)"
  by (subst round64_normal [where e = "- 1"])
     (simp_all add: emin_def emax_def rne_def Let_def power_int_minus)

lemma tenths_remaining_1: "round64 (18014398509481983 / 36028797018963968) = Fin (1 / 2)"
  by (subst round64_normal [where e = "- 2"])
     (simp_all add: emin_def emax_def rne_def Let_def power_int_minus)

lemma tenths_filled_1: "round64 (3602879701896397 / 36028797018963968) = Fin (3602879701896397 / 36028797018963968)"
  by (subst round64_normal [where e = "- 4"])
     (simp_all add: emin_def emax_def rne_def Let_def power_int_minus)

lemma tenths_remaining_2: "round64 (5404319552844595 / 18014398509481984) = Fin (5404319552844595 / 18014398509481984)"
  by (subst round64_normal [where e = "- 2"])
     (simp_all add: emin_def emax_def rne_def Let_def power_int_minus)

lemma tenths_filled_2: "round64 (10808639105689191 / 36028797018963968) = Fin (1351079888211149 / 4503599627370496)"
  by (subst round64_normal [where e = "- 2"])
     (simp_all add: emin_def emax_def rne_def Let_def power_int_minus)

lemma tenths_filled_3: "round64 (10808639105689191 / 18014398509481984) = Fin (1351079888211149 / 2251799813685248)"
  by (subst round64_normal [where e = "- 1"])
     (simp_all add: emin_def emax_def rne_def Let_def power_int_minus)

lemma tenths_difference: "round64 (1 / 9007199254740992) = Fin (1 / 9007199254740992)"
  by (subst round64_normal [where e = "- 53"])
     (simp_all add: emin_def emax_def rne_def Let_def power_int_minus)




subsection \<open>C3: the delay before a reconnect\<close>




subsection \<open>C4: the imbalance of the market depth\<close>

text \<open>
  C4 (the imbalance is a defined value in \<open>[-1, 1]\<close>, 0 when both sides are empty, and
  never \<open>NaN\<close>): \<open>calculateMarketDepth\<close> divides without a guard, and for a book whose
  two sides are empty both volumes are 0 and the imbalance it returns is \<open>0 / 0\<close>, which is
  \<open>NaN\<close>.
\<close>

theorem imbalance_empty_book:
  "imbalance (calculateMarketDepth (Some emptyBook) 10) = Some NaN
   \<and> totalBidVolume (calculateMarketDepth (Some emptyBook) 10) = Fin 0
   \<and> totalAskVolume (calculateMarketDepth (Some emptyBook) 10) = Fin 0"
  by (simp add: calculateMarketDepth_def emptyBook_def processSide_def validOrders_def
      js_sort_def jsub_def Let_def)

subsection \<open>C5: the recommendations of calculateOptimalSizing\<close>

lemma sizingStep_first:
  assumes "toNumber q = Fin s0"
  shows "sizingStep ((p, q) # rest)
           = Fin (if truthy q then max s0 (realOf (round64 (1 / 100)))
                  else realOf (round64 (1 / 100)))"
  using assms by (simp add: sizingStep_def Math_max_def round64_hundredth realOf_def max_def)

lemma hundredth_bounds:
  "1 / 128 \<le> realOf (round64 (1 / 100))" "double (realOf (round64 (1 / 100)))"
proof -
  show "1 / 128 \<le> realOf (round64 (1 / 100))"
    by (simp add: round64_hundredth realOf_def)
  have "double (5764607523034235 / 576460752303423488)"
    using round64_hundredth by (rule round64_idem)
  then show "double (realOf (round64 (1 / 100)))"
    by (simp add: round64_hundredth realOf_def)
qed

text \<open>
  C5 as stated fails in two places. With asks \<open>{64: 1, 128: 1}\<close> and a maximum slippage of
  1 the last recommendation, whose size 2 is returned as \<open>maxSize\<close>, has a slippage of 50:
  the loop appends a candidate before it compares its slippage with the maximum. And the step
  is the quantity of the level that the object lists first, not of the level with the
  smallest price: with asks listed as \<open>{"1.5": 2, "0.5": 1}\<close> the step is 2, while the
  level of the smallest price holds 1.
\<close>

theorem optimalSizing_counterexample:
  "calculateOptimalSizing (Some asks64_128) (Fin 1) ''buy''
     = Some (Inr \<lparr> maxSize = Fin 2,
                   recommendations =
                     [\<lparr> size_r = Fin 1, price_r = Fin 64, slippage = Fin 0,
                        cost_r = Some (Fin 64) \<rparr>,
                      \<lparr> size_r = Fin 2, price_r = Fin 96, slippage = Fin 50,
                        cost_r = Some (Fin 192) \<rparr>],
                   referencePrice = Some (Fin 64) \<rparr>)
   \<and> jgt (Math_abs (Fin 50)) (Fin 1)
   \<and> map quantity (sortedOrders [(Fin (3 / 2), NumberValue (Fin 2)),
                                   (Fin (1 / 2), NumberValue (Fin 1))] ''buy'')
       = [Fin 1, Fin 2]
   \<and> sizingStep [(Fin (3 / 2), NumberValue (Fin 2)), (Fin (1 / 2), NumberValue (Fin 1))] = Fin 2
   \<and> calculateOptimalSizing (Some asksUnordered) (Fin 1) ''buy''
       = Some (Inr \<lparr> maxSize = Fin 2,
                     recommendations =
                       [\<lparr> size_r = Fin 2, price_r = Fin 1, slippage = Fin 100,
                          cost_r = Some (Fin 2) \<rparr>],
                     referencePrice = Some (Fin (1 / 2)) \<rparr>)"
proof -
  have ref: "bestAsk (getBestPrices (Some asksUnordered)) = Fin (1 / 2)"
    by (simp add: getBestPrices_def asksUnordered_def positivePrices_def js_sort_def jgt_def
        jsub_def firstOr0_def Let_def round64_minus round64_numeral)
  have step: "sizingStep [(Fin (3 / 2), NumberValue (Fin 2)), (Fin (1 / 2), NumberValue (Fin 1))]
                = Fin 2"
    by (simp add: sizingStep_def falsy_def Math_max_def round64_hundredth)
  have side: "consumedSide asksUnordered ''buy''
                = Some [(Fin (3 / 2), NumberValue (Fin 2)), (Fin (1 / 2), NumberValue (Fin 1))]"
    by (simp add: consumedSide_def asksUnordered_def)
  have sorted: "map quantity (sortedOrders [(Fin (3 / 2), NumberValue (Fin 2)),
                                            (Fin (1 / 2), NumberValue (Fin 1))] ''buy'')
       = [Fin 1, Fin 2]"
    by (simp add: sortedOrders_def validOrders_def js_sort_def jgt_def jsub_def round64_minus)
  have loop: "sizingLoop (Some asksUnordered) (Fin 1) ''buy'' (Fin (1 / 2)) (Fin 2) (Fin 0) []
     = Some [\<lparr> size_r = Fin 2, price_r = Fin 1, slippage = Fin 100,
               cost_r = Some (Fin 2) \<rparr>]"
    by (subst sizingLoop.simps)
       (simp add: vwap_unordered_2 Let_def jgt_def jsub_def round64_numeral round64_one_half)
  have "calculateOptimalSizing (Some asksUnordered) (Fin 1) ''buy''
       = Some (Inr \<lparr> maxSize = Fin 2,
                     recommendations =
                       [\<lparr> size_r = Fin 2, price_r = Fin 1, slippage = Fin 100,
                          cost_r = Some (Fin 2) \<rparr>],
                     referencePrice = Some (Fin (1 / 2)) \<rparr>)"
    by (simp add: calculateOptimalSizing_def side [simplified] ref [simplified]
        step [simplified] loop [simplified] lastSize_def Let_def)
  then show ?thesis
    using sizing_64_128 step sorted by (simp add: jgt_def)
qed

text \<open>
  C5, amended: for a consumed side (the asks for \<open>'buy'\<close>, the bids otherwise) that is
  present and not empty and whose first listed value converts to a finite number,
  \<open>calculateOptimalSizing\<close> returns. Its step is that first listed value as a number (0 if
  the value is falsy), raised to the double of 0.01 if it is lower: the quantity of the
  level the object lists first, not of the level with the smallest price. The candidate
  sizes are the step added up in floating point, one rounded sum after the other. Every
  recommendation fills completely and carries the price, the slippage and the cost that
  \<open>calculateVWAP\<close> gives for its size; every recommendation before the last has an absolute
  slippage that does not exceed \<open>maxSlippage\<close>; and the loop goes on while it can: if the
  last recommendation is within \<open>maxSlippage\<close>, or there is none, then the size has
  reached 1000 or the next candidate does not fill completely. \<open>maxSize\<close> is the size of
  the last recommendation (0 if there is none). The slippage of the last recommendation is
  left open.
\<close>

theorem optimalSizing_recommendations:
  assumes "(if side = ''buy'' then Asks ob else Bids ob) = Some ((p, q) # rest)"
    and "toNumber q = Fin s0" and "double s0"
  shows "\<exists>recs s.
           calculateOptimalSizing (Some ob) maxSlippage side
             = Some (Inr \<lparr> maxSize = (if recs = [] then Fin 0 else size_r (last recs)),
                           recommendations = recs,
                           referencePrice =
                             Some (if side = ''buy'' then bestAsk (getBestPrices (Some ob))
                                   else bestBid (getBestPrices (Some ob))) \<rparr>)
         \<and> s = (if truthy q then max s0 (realOf (round64 (1 / 100)))
                else realOf (round64 (1 / 100)))
         \<and> (\<forall>i<length recs. size_r (recs ! i) = ((\<lambda>x. jadd x (Fin s)) ^^ Suc i) (Fin 0))
         \<and> (\<forall>r\<in>set recs.
               remainingVolume (calculateVWAP (Some ob) (size_r r) side) = Fin 0
             \<and> price_r r = vwap (calculateVWAP (Some ob) (size_r r) side)
             \<and> slippage r
                 = jmul (jdiv (jsub (price_r r)
                                 (if side = ''buy'' then bestAsk (getBestPrices (Some ob))
                                  else bestBid (getBestPrices (Some ob))))
                            (if side = ''buy'' then bestAsk (getBestPrices (Some ob))
                             else bestBid (getBestPrices (Some ob))))
                     (Fin 100)
             \<and> cost_r r = totalCost (calculateVWAP (Some ob) (size_r r) side))
         \<and> (\<forall>r\<in>set (butlast recs). \<not> jgt (Math_abs (slippage r)) maxSlippage)
         \<and> (recs = [] \<or> \<not> jgt (Math_abs (slippage (last recs))) maxSlippage \<longrightarrow>
              \<not> jlt (((\<lambda>x. jadd x (Fin s)) ^^ length recs) (Fin 0)) (Fin 1000)
            \<or> jgt (remainingVolume (calculateVWAP (Some ob)
                      (((\<lambda>x. jadd x (Fin s)) ^^ Suc (length recs)) (Fin 0)) side)) (Fin 0))"
proof -
  let ?ref = "if side = ''buy'' then bestAsk (getBestPrices (Some ob))
              else bestBid (getBestPrices (Some ob))"
  let ?s = "if truthy q then max s0 (realOf (round64 (1 / 100)))
            else realOf (round64 (1 / 100))"
  have side: "consumedSide ob side = Some ((p, q) # rest)"
    using assms(1) by (simp add: consumedSide_def)
  have step: "sizingStep ((p, q) # rest) = Fin ?s"
    using assms(2) by (rule sizingStep_first)
  have lo: "1 / 128 \<le> ?s" using hundredth_bounds(1) by (simp add: max_def)
  have db: "double ?s" using hundredth_bounds(2) assms(3) by (simp add: max_def)
  have c0: "(0::real) \<le> 0" "?s < 1000 \<or> (0::real) = 0 \<or> (1000::real) \<le> 0" by simp_all
  obtain recs where recs:
    "sizingLoop (Some ob) maxSlippage side ?ref (Fin ?s) (Fin 0) [] = Some ([] @ recs)"
    "\<forall>i<length recs. size_r (recs ! i) = ((\<lambda>x. jadd x (Fin ?s)) ^^ Suc i) (Fin 0)"
    "\<forall>r\<in>set recs.
               remainingVolume (calculateVWAP (Some ob) (size_r r) side) = Fin 0
             \<and> price_r r = vwap (calculateVWAP (Some ob) (size_r r) side)
             \<and> slippage r = jmul (jdiv (jsub (price_r r) ?ref) ?ref) (Fin 100)
             \<and> cost_r r = totalCost (calculateVWAP (Some ob) (size_r r) side)"
    "\<forall>r\<in>set (butlast recs). \<not> jgt (Math_abs (slippage r)) maxSlippage"
    "recs = [] \<or> \<not> jgt (Math_abs (slippage (last recs))) maxSlippage \<longrightarrow>
              \<not> jlt (((\<lambda>x. jadd x (Fin ?s)) ^^ length recs) (Fin 0)) (Fin 1000)
            \<or> jgt (remainingVolume (calculateVWAP (Some ob)
                      (((\<lambda>x. jadd x (Fin ?s)) ^^ Suc (length recs)) (Fin 0)) side)) (Fin 0)"
    using sizingLoop_doubles [OF lo db c0, of ob maxSlippage side ?ref "[]"] by blast
  have "calculateOptimalSizing (Some ob) maxSlippage side
          = Some (Inr \<lparr> maxSize = (if recs = [] then Fin 0 else size_r (last recs)),
                        recommendations = recs, referencePrice = Some ?ref \<rparr>)"
    using recs(1) by (simp add: calculateOptimalSizing_def side step lastSize_def Let_def)
  then show ?thesis using recs(2,3,4,5) by (intro exI [of _ recs] exI [of _ ?s] conjI refl)
qed

theorem optimalSizing_recommendations_witness:
  "(if ''buy'' = ''buy'' then Asks asks64_128 else Bids asks64_128)
     = Some ((Fin 64, NumberValue (Fin 1)) # [(Fin 128, NumberValue (Fin 1))])
   \<and> toNumber (NumberValue (Fin 1)) = Fin 1 \<and> double 1 \<and> truthy (NumberValue (Fin 1))
   \<and> (\<exists>recs. calculateOptimalSizing (Some asks64_128) (Fin 100) ''buy''
                = Some (Inr \<lparr> maxSize = Fin 2, recommendations = recs,
                              referencePrice = Some (Fin 64) \<rparr>)
         \<and> map size_r recs = [Fin 1, Fin 2]
         \<and> map slippage recs = [Fin 0, Fin 50]
         \<and> \<not> jgt (Math_abs (slippage (last recs))) (Fin 100)
         \<and> remainingVolume (calculateVWAP (Some asks64_128) (size_r (last recs)) ''buy'') = Fin 0
         \<and> jgt (remainingVolume (calculateVWAP (Some asks64_128) (Fin 3) ''buy'')) (Fin 0))"
proof -
  let ?f = "\<lambda>x. jadd x (Fin (if truthy (NumberValue (Fin 1))
                               then max 1 (realOf (round64 (1 / 100)))
                               else realOf (round64 (1 / 100))))"
  let ?two = "[\<lparr> size_r = Fin 1, price_r = Fin 64, slippage = Fin 0,
                  cost_r = Some (Fin 64) \<rparr>,
               \<lparr> size_r = Fin 2, price_r = Fin 96, slippage = Fin 50,
                  cost_r = Some (Fin 192) \<rparr>]"
  have side: "(if ''buy'' = ''buy'' then Asks asks64_128 else Bids asks64_128)
     = Some ((Fin 64, NumberValue (Fin 1)) # [(Fin 128, NumberValue (Fin 1))])"
    by (simp add: asks64_128_def)
  have q: "toNumber (NumberValue (Fin 1)) = Fin 1" "double 1" "truthy (NumberValue (Fin 1))"
    by (simp_all add: falsy_def)
  let ?ref = "if ''buy'' = ''buy'' then bestAsk (getBestPrices (Some asks64_128))
              else bestBid (getBestPrices (Some asks64_128))"
  let ?P = "\<lambda>recs s.
           calculateOptimalSizing (Some asks64_128) (Fin 100) ''buy''
             = Some (Inr \<lparr> maxSize = (if recs = [] then Fin 0 else size_r (last recs)),
                           recommendations = recs, referencePrice = Some ?ref \<rparr>)
         \<and> s = (if truthy (NumberValue (Fin 1)) then max 1 (realOf (round64 (1 / 100)))
                else realOf (round64 (1 / 100)))
         \<and> (\<forall>i<length recs. size_r (recs ! i) = ((\<lambda>x. jadd x (Fin s)) ^^ Suc i) (Fin 0))
         \<and> (\<forall>r\<in>set recs.
               remainingVolume (calculateVWAP (Some asks64_128) (size_r r) ''buy'') = Fin 0
             \<and> price_r r = vwap (calculateVWAP (Some asks64_128) (size_r r) ''buy'')
             \<and> slippage r = jmul (jdiv (jsub (price_r r) ?ref) ?ref) (Fin 100)
             \<and> cost_r r = totalCost (calculateVWAP (Some asks64_128) (size_r r) ''buy''))
         \<and> (\<forall>r\<in>set (butlast recs). \<not> jgt (Math_abs (slippage r)) (Fin 100))
         \<and> (recs = [] \<or> \<not> jgt (Math_abs (slippage (last recs))) (Fin 100) \<longrightarrow>
              \<not> jlt (((\<lambda>x. jadd x (Fin s)) ^^ length recs) (Fin 0)) (Fin 1000)
            \<or> jgt (remainingVolume (calculateVWAP (Some asks64_128)
                      (((\<lambda>x. jadd x (Fin s)) ^^ Suc (length recs)) (Fin 0)) ''buy'')) (Fin 0))"
  have "\<exists>recs s. ?P recs s"
    by (rule optimalSizing_recommendations [OF side q(1,2), of "Fin 100"])
  then obtain recs s where w0: "?P recs s" by (elim exE)
  have w: "calculateOptimalSizing (Some asks64_128) (Fin 100) ''buy''
             = Some (Inr \<lparr> maxSize = (if recs = [] then Fin 0 else size_r (last recs)),
                           recommendations = recs, referencePrice = Some ?ref \<rparr>)"
    "s = (if truthy (NumberValue (Fin 1)) then max 1 (realOf (round64 (1 / 100)))
          else realOf (round64 (1 / 100)))"
    "\<forall>r\<in>set recs.
               remainingVolume (calculateVWAP (Some asks64_128) (size_r r) ''buy'') = Fin 0
             \<and> price_r r = vwap (calculateVWAP (Some asks64_128) (size_r r) ''buy'')
             \<and> slippage r = jmul (jdiv (jsub (price_r r) ?ref) ?ref) (Fin 100)
             \<and> cost_r r = totalCost (calculateVWAP (Some asks64_128) (size_r r) ''buy'')"
    "recs = [] \<or> \<not> jgt (Math_abs (slippage (last recs))) (Fin 100) \<longrightarrow>
        \<not> jlt (((\<lambda>x. jadd x (Fin s)) ^^ length recs) (Fin 0)) (Fin 1000)
      \<or> jgt (remainingVolume (calculateVWAP (Some asks64_128)
                (((\<lambda>x. jadd x (Fin s)) ^^ Suc (length recs)) (Fin 0)) ''buy'')) (Fin 0)"
    by (insert w0, (elim conjE, assumption)+)
  have s: "s = 1" using w(2) by (simp add: falsy_def round64_hundredth realOf_def)
  have "(Some (Inr \<lparr> maxSize = (if recs = [] then Fin 0 else size_r (last recs)),
                     recommendations = recs, referencePrice = Some ?ref \<rparr>)
          :: (error + sizing) option)
        = Some (Inr \<lparr> maxSize = Fin 2, recommendations = ?two,
                      referencePrice = Some (Fin 64) \<rparr>)"
    unfolding w(1) [symmetric] by (rule sizing_64_128_wide)
  then have recs: "recs = ?two" by simp
  have res: "calculateOptimalSizing (Some asks64_128) (Fin 100) ''buy''
                = Some (Inr \<lparr> maxSize = Fin 2, recommendations = recs,
                              referencePrice = Some (Fin 64) \<rparr>)"
    using sizing_64_128_wide recs by simp
  have within: "\<not> jgt (Math_abs (slippage (last recs))) (Fin 100)"
    using recs by (simp add: jgt_def)
  have full: "remainingVolume (calculateVWAP (Some asks64_128) (size_r (last recs)) ''buy'') = Fin 0"
    using w(3) recs by simp
  have "\<not> jlt (((\<lambda>x. jadd x (Fin s)) ^^ length recs) (Fin 0)) (Fin 1000)
      \<or> jgt (remainingVolume (calculateVWAP (Some asks64_128)
                (((\<lambda>x. jadd x (Fin s)) ^^ Suc (length recs)) (Fin 0)) ''buy'')) (Fin 0)"
    using w(4) within by simp
  then have next_fails:
    "jgt (remainingVolume (calculateVWAP (Some asks64_128) (Fin 3) ''buy'')) (Fin 0)"
    unfolding s recs by (simp add: numeral_2_eq_2 round64_numeral)
  have "map size_r recs = [Fin 1, Fin 2]" "map slippage recs = [Fin 0, Fin 50]"
    using recs by simp_all
  then have "\<exists>recs. calculateOptimalSizing (Some asks64_128) (Fin 100) ''buy''
                = Some (Inr \<lparr> maxSize = Fin 2, recommendations = recs,
                              referencePrice = Some (Fin 64) \<rparr>)
         \<and> map size_r recs = [Fin 1, Fin 2]
         \<and> map slippage recs = [Fin 0, Fin 50]
         \<and> \<not> jgt (Math_abs (slippage (last recs))) (Fin 100)
         \<and> remainingVolume (calculateVWAP (Some asks64_128) (size_r (last recs)) ''buy'') = Fin 0
         \<and> jgt (remainingVolume (calculateVWAP (Some asks64_128) (Fin 3) ''buy'')) (Fin 0)"
    using res within full next_fails by (intro exI [of _ recs] conjI)
  then show ?thesis using side q by (intro conjI)
qed

subsection \<open>C6: sending and the outbound queue\<close>




subsection \<open>C7: the control messages\<close>




subsection \<open>C8: the pong and the latency window\<close>




subsection \<open>C9: a reconnect after a clean manual disconnect\<close>


subsection \<open>C10: a missing book in compareOrderBooks\<close>

text \<open>
  C10 (a missing book is left out of the comparison and the empty result is returned when
  fewer than two books remain): in an array of two or more books a missing one makes
  \<open>compareOrderBooks\<close> throw a \<open>TypeError\<close>, at the read of \<open>ob.Sources\<close>, before the
  filter on the best prices is reached.
\<close>

theorem compareOrderBooks_missing_book:
  "compareOrderBooks (Some [None, Some binance]) = Inl TypeError
   \<and> compareOrderBooks (Some (None # ob # rest)) = Inl TypeError
   \<and> compareOrderBooks (Some (Some binance # None # rest)) = Inl TypeError"
  by (simp add: compareOrderBooks_def toExchangeEntry_def Let_def)

end
